theory Spec2Isabelle
  imports Complex_Main
begin

text \<open>
  The client-side router of the kit, \<^verbatim>\<open>packages/kit/src/runtime/client/router.js\<close>: which URLs
  it owns, how it turns a URL into a NavigationInfo, how \<^verbatim>\<open>_navigate\<close> normalizes the
  trailing slash and calls the Renderer, and what \<^verbatim>\<open>goto\<close>, \<^verbatim>\<open>prefetch\<close> and the click,
  popstate and prefetch listeners do to the browser. The router's methods are functions
  of the router, of the browser state and of the platform; what they do to the browser
  and to the Renderer is recorded, in order, in the \<open>trace\<close> of the browser state.
\<close>

section \<open>JavaScript strings\<close>

text \<open>
  A JavaScript string is a sequence of UTF-16 code units. It is modelled as the list of
  the code units' values; \<open>str\<close> embeds an ASCII literal.
\<close>

type_synonym jsstring = "nat list"

definition str :: "string \<Rightarrow> jsstring" where
  "str s = map of_char s"

text \<open>\<^verbatim>\<open>s.startsWith(t)\<close>, \<^verbatim>\<open>s.endsWith(t)\<close>, \<^verbatim>\<open>s.includes(t)\<close> for a one-unit \<open>t\<close>,
  \<^verbatim>\<open>s.slice(n)\<close> and \<^verbatim>\<open>s.slice(0, -1)\<close>.\<close>

definition startsWith :: "jsstring \<Rightarrow> jsstring \<Rightarrow> bool" where
  "startsWith s t = (take (length t) s = t)"

definition endsWith :: "jsstring \<Rightarrow> jsstring \<Rightarrow> bool" where
  "endsWith s t = (length t \<le> length s \<and> drop (length s - length t) s = t)"

definition includes_unit :: "jsstring \<Rightarrow> nat \<Rightarrow> bool" where
  "includes_unit s c = (c \<in> set s)"

definition slice_from :: "jsstring \<Rightarrow> nat \<Rightarrow> jsstring" where
  "slice_from s n = drop n s"

definition slice_0_minus1 :: "jsstring \<Rightarrow> jsstring" where
  "slice_0_minus1 s = butlast s"

text \<open>\<^verbatim>\<open>s.split(sep)\<close> for a one-unit separator: the pieces between the separators, in
  order; never the empty array. \<^verbatim>\<open>pop()\<close> on the result is its last piece.\<close>

fun split_unit :: "nat \<Rightarrow> jsstring \<Rightarrow> jsstring list" where
  "split_unit sep [] = [[]]"
| "split_unit sep (c # cs) =
     (if c = sep then [] # split_unit sep cs
      else (case split_unit sep cs of
              [] \<Rightarrow> [[c]]
            | piece # pieces \<Rightarrow> (c # piece) # pieces))"

definition pop :: "jsstring list \<Rightarrow> jsstring" where
  "pop pieces = last pieces"

section \<open>decodeURIComponent\<close>

text \<open>
  The built-in follows the Decode operation of ECMA-262 with an empty set of preserved
  escapes. A \<^verbatim>\<open>%\<close> must be followed by two hexadecimal digits; an octet below 128 is the
  code unit itself; an octet that opens a multi-byte sequence must be followed by the
  right number of escaped continuation octets, and the octets must be the valid UTF-8
  encoding of a code point, which is appended in UTF-16. Everything else throws a
  URIError, modelled as \<open>None\<close>.
\<close>

definition hex_digit :: "nat \<Rightarrow> nat option" where
  "hex_digit c =
     (if 48 \<le> c \<and> c \<le> 57 then Some (c - 48)
      else if 65 \<le> c \<and> c \<le> 70 then Some (c - 55)
      else if 97 \<le> c \<and> c \<le> 102 then Some (c - 87)
      else None)"

definition hex_octet :: "nat \<Rightarrow> nat \<Rightarrow> nat option" where
  "hex_octet h l =
     (case hex_digit h of
        None \<Rightarrow> None
      | Some a \<Rightarrow> (case hex_digit l of None \<Rightarrow> None | Some b \<Rightarrow> Some (16 * a + b)))"

text \<open>The number of leading 1 bits of an octet, as far as Decode distinguishes them
  (5 stands for "more than four").\<close>

definition leading_ones :: "nat \<Rightarrow> nat" where
  "leading_ones b =
     (if b < 128 then 0 else if b < 192 then 1 else if b < 224 then 2
      else if b < 240 then 3 else if b < 248 then 4 else 5)"

text \<open>Reads \<open>n\<close> escaped octets \<^verbatim>\<open>%XX\<close> from the front of the string.\<close>

fun escaped_octets :: "nat \<Rightarrow> jsstring \<Rightarrow> nat list option" where
  "escaped_octets 0 s = Some []"
| "escaped_octets (Suc n) (p # h # l # s) =
     (if p \<noteq> 37 then None
      else (case hex_octet h l of
              None \<Rightarrow> None
            | Some b \<Rightarrow> map_option ((#) b) (escaped_octets n s)))"
| "escaped_octets (Suc n) s = None"

text \<open>The code point of a UTF-8 sequence \<open>b # cont\<close> of the length announced by \<open>b\<close>,
  if the sequence is valid: continuation octets are \<^verbatim>\<open>10xxxxxx\<close>, the encoding is the
  shortest one, and the code point is no surrogate and at most \<^verbatim>\<open>0x10FFFF\<close>.\<close>

definition utf8_code_point :: "nat \<Rightarrow> nat list \<Rightarrow> nat option" where
  "utf8_code_point b cont =
     (let n = Suc (length cont);
          v = foldl (\<lambda>acc c. acc * 64 + (c - 128))
                (if n = 2 then b - 192 else if n = 3 then b - 224 else b - 240) cont
      in if (\<forall>c \<in> set cont. 128 \<le> c \<and> c < 192)
            \<and> (if n = 2 then 128 else if n = 3 then 2048 else 65536) \<le> v
            \<and> \<not> (55296 \<le> v \<and> v \<le> 57343)
            \<and> v \<le> 1114111
         then Some v else None)"

definition utf16_encode :: "nat \<Rightarrow> jsstring" where
  "utf16_encode v =
     (if v \<le> 65535 then [v]
      else [55296 + (v - 65536) div 1024, 56320 + (v - 65536) mod 1024])"

fun decodeURIComponent :: "jsstring \<Rightarrow> jsstring option" where
  "decodeURIComponent [] = Some []"
| "decodeURIComponent (c # cs) =
     (if c \<noteq> 37 then map_option ((#) c) (decodeURIComponent cs)
      else (case cs of
              h # l # rest \<Rightarrow>
                (case hex_octet h l of
                   None \<Rightarrow> None
                 | Some b \<Rightarrow>
                     let n = leading_ones b in
                     if n = 0 then map_option ((#) b) (decodeURIComponent rest)
                     else if n = 1 \<or> n > 4 then None
                     else (case escaped_octets (n - 1) rest of
                             None \<Rightarrow> None
                           | Some cont \<Rightarrow>
                               (case utf8_code_point b cont of
                                  None \<Rightarrow> None
                                | Some v \<Rightarrow>
                                    map_option ((@) (utf16_encode v))
                                      (decodeURIComponent (drop (3 * (n - 1)) rest)))))
            | _ \<Rightarrow> None))"

section \<open>URLs, routes and the Router's configuration\<close>

text \<open>The fields of a \<^verbatim>\<open>URL\<close> object (and of \<^verbatim>\<open>location\<close>) that the router reads, and those
  that the browser compares before it lets the history rewrite the address; \<open>host\<close>
  includes the port.\<close>

record url =
  href :: jsstring
  protocol :: jsstring
  username :: jsstring
  password :: jsstring
  host :: jsstring
  origin :: jsstring
  pathname :: jsstring
  search :: jsstring
  hash :: jsstring

text \<open>A route is an array whose first element is the pattern; \<^verbatim>\<open>pattern.test(path)\<close> is
  the predicate, the rest of the array is carried along.\<close>

type_synonym 'r route = "(jsstring \<Rightarrow> bool) \<times> 'r"

datatype trailing_slash = Never | Always | Ignore

record 'r router =
  base :: jsstring
  routes :: "'r route list"
  trailing_slash :: trailing_slash
  enabled :: bool

record ('q, 'r) navigation_info =
  id_nav :: jsstring
  routes_nav :: "'r route list"
  path :: jsstring
  query :: 'q

text \<open>
  The platform functions the router calls: \<^verbatim>\<open>new URL(s)\<close> and \<^verbatim>\<open>new URL(s, base)\<close>
  (\<open>None\<close> is the TypeError of an invalid URL), \<^verbatim>\<open>new URLSearchParams(search)\<close> and the
  string conversion of its result.
\<close>

record 'q platform =
  new_URL :: "jsstring \<Rightarrow> jsstring option \<Rightarrow> url option"
  URLSearchParams :: "jsstring \<Rightarrow> 'q"
  toString :: "'q \<Rightarrow> jsstring"

text \<open>What the router and the platform throw: the URIError of \<^verbatim>\<open>decodeURIComponent\<close>, the
  TypeError of \<^verbatim>\<open>new URL\<close>, the SecurityError of the history, an \<^verbatim>\<open>Error\<close> made by the router
  with its message, and the reason with which a promise of the Renderer is rejected.\<close>

datatype js_error =
    URIError
  | TypeError
  | SecurityError
  | Error jsstring
  | RendererError jsstring

section \<open>Router.owns and Router.parse\<close>

text \<open>\<^verbatim>\<open>location\<close> is a global of the browser; \<^verbatim>\<open>owns\<close> and \<^verbatim>\<open>parse\<close> take it as \<open>loc\<close>.\<close>

definition owns :: "'r router \<Rightarrow> url \<Rightarrow> url \<Rightarrow> bool" where
  "owns r loc url =
     (origin url = origin loc \<and> startsWith (pathname url) (base r))"

text \<open>\<open>Inr None\<close> is the \<^verbatim>\<open>undefined\<close> that \<^verbatim>\<open>parse\<close> returns for a URL it does not own;
  \<open>Inl URIError\<close> is the exception of \<^verbatim>\<open>decodeURIComponent\<close>.\<close>

definition parse ::
  "'q platform \<Rightarrow> 'r router \<Rightarrow> url \<Rightarrow> url \<Rightarrow> js_error + ('q, 'r) navigation_info option"
where
  "parse pf r loc url =
     (if owns r loc url then
        (case decodeURIComponent
                (let s = slice_from (pathname url) (length (base r))
                 in if s = [] then str ''/'' else s) of
           None \<Rightarrow> Inl URIError
         | Some p \<Rightarrow>
             let rs = filter (\<lambda>(pattern, _). pattern p) (routes r);
                 q = URLSearchParams pf (search url);
                 i = p @ str ''?'' @ toString pf q
             in Inr (Some \<lparr> id_nav = i, routes_nav = rs, path = p, query = q \<rparr>))
      else Inr None)"

section \<open>Trailing-slash normalization\<close>

text \<open>
  The step of \<^verbatim>\<open>_navigate\<close> between the ownership check and the first call of the
  Renderer. \<open>incorrect\<close> is the local constant of that name, \<open>corrected_path\<close> the value
  assigned to \<^verbatim>\<open>info.path\<close> when it holds, and \<open>normalized_path\<close> the value of
  \<^verbatim>\<open>info.path\<close> after the step.
\<close>

definition has_trailing_slash :: "jsstring \<Rightarrow> bool" where
  "has_trailing_slash p = endsWith p (str ''/'')"

definition incorrect :: "trailing_slash \<Rightarrow> jsstring \<Rightarrow> bool" where
  "incorrect ts p =
     ((has_trailing_slash p \<and> ts = Never) \<or>
      (\<not> has_trailing_slash p \<and> ts = Always \<and>
       \<not> includes_unit (pop (split_unit (of_char CHR ''/'') p)) (of_char CHR ''.'')))"

definition corrected_path :: "jsstring \<Rightarrow> jsstring" where
  "corrected_path p = (if has_trailing_slash p then slice_0_minus1 p else p @ str ''/'')"

definition normalized_path :: "trailing_slash \<Rightarrow> jsstring \<Rightarrow> jsstring" where
  "normalized_path ts p =
     (if p \<noteq> str ''/'' then (if incorrect ts p then corrected_path p else p) else p)"

section \<open>The browser as the router sees it\<close>

type_synonym scroll_position = "real \<times> real"

text \<open>What the Renderer is called with, and what the router does to the browser, in the
  order in which it happens.\<close>

datatype ('q, 'r) effect =
    PushState jsstring
  | ReplaceState jsstring
  | SetLocationHref jsstring
  | PreventDefault
  | Notify jsstring 'q
  | Update "('q, 'r) navigation_info" "jsstring list" bool
  | Load "('q, 'r) navigation_info"
  | FocusBody
  | ScrollTo real real

text \<open>The document as an \<^verbatim>\<open>update\<close> of the Renderer leaves it: the top of the bounding
  rectangle of the element with a given id, if there is one, and \<^verbatim>\<open>scrollY\<close>.\<close>

record document =
  getElementById :: "jsstring \<Rightarrow> real option"
  scrollY :: real

text \<open>The Renderer is a collaborator: \<open>Inl\<close> is the reason of a rejected promise.\<close>

record ('q, 'r, 'v) renderer =
  load :: "('q, 'r) navigation_info \<Rightarrow> jsstring + 'v"
  update :: "('q, 'r) navigation_info \<Rightarrow> jsstring list \<Rightarrow> bool \<Rightarrow> jsstring + document"

text \<open>How the promise returned by an async method ends.\<close>

datatype 'a promise = Fulfilled 'a | Rejected js_error | Never_settles

datatype href_value = Str jsstring | SVGAnimatedString jsstring

text \<open>An element of the document: \<^verbatim>\<open>href\<close> and \<^verbatim>\<open>target\<close> are strings on an HTML anchor
  and animated strings (of which \<^verbatim>\<open>baseVal\<close> is kept) on an SVG one.\<close>

record node =
  nodeName :: jsstring
  href_of :: href_value
  target_of :: href_value
  attributes :: "jsstring \<rightharpoonup> jsstring"

text \<open>A mouse or touch event; \<open>target\<close> is \<^verbatim>\<open>event.target\<close> followed by its ancestors, as
  \<^verbatim>\<open>parentNode\<close> enumerates them.\<close>

record mouse_event =
  button :: int
  which :: int
  metaKey :: bool
  ctrlKey :: bool
  shiftKey :: bool
  altKey :: bool
  defaultPrevented :: bool
  target :: "node list"

text \<open>A popstate event: \<open>None\<close> is a falsy \<^verbatim>\<open>event.state\<close>, \<open>Some s\<close> a state whose property
  \<^verbatim>\<open>'sveltekit:scroll'\<close> is \<open>s\<close> (\<open>None\<close> when it has none).\<close>

record popstate_event =
  state :: "scroll_position option option"

text \<open>The state of the browser that the router reads and writes: the location, the
  \<^verbatim>\<open>href\<close> of the document's \<^verbatim>\<open>base\<close> element if it has one, the scroll offsets, the pending
  timer of the mousemove listener with the event it was set for, and what has been done
  so far.\<close>

record ('q, 'r) window =
  location :: url
  base_href :: "jsstring option"
  pageXOffset :: real
  pageYOffset :: real
  mousemove_timeout :: "mouse_event option"
  trace :: "('q, 'r) effect list"

text \<open>The document's base URL: that of its \<^verbatim>\<open>base\<close> element, and the URL of the document
  without one. \<^verbatim>\<open>get_base_uri(document)\<close>, imported from a module that is not among the
  sources, is taken to return it.\<close>

definition baseURI :: "('q, 'r) window \<Rightarrow> jsstring" where
  "baseURI w = (case base_href w of Some b \<Rightarrow> b | None \<Rightarrow> href (location w))"

definition scroll_state :: "('q, 'r) window \<Rightarrow> scroll_position" where
  "scroll_state w = (pageXOffset w, pageYOffset w)"

text \<open>
  Whether the browser lets a document at \<open>documentURL\<close> have its URL rewritten to
  \<open>targetURL\<close>, as the HTML standard has it: scheme, username, password, host and port
  must be the same; then an http or https URL may differ in path, query and fragment, a
  file URL in query and fragment, and any other URL in its fragment only.
\<close>

definition can_have_its_URL_rewritten :: "url \<Rightarrow> url \<Rightarrow> bool" where
  "can_have_its_URL_rewritten documentURL targetURL =
     (if protocol targetURL \<noteq> protocol documentURL
         \<or> username targetURL \<noteq> username documentURL
         \<or> password targetURL \<noteq> password documentURL
         \<or> host targetURL \<noteq> host documentURL
      then False
      else if protocol targetURL = str ''http:'' \<or> protocol targetURL = str ''https:'' then True
      else if protocol targetURL = str ''file:''
      then pathname targetURL = pathname documentURL
      else pathname targetURL = pathname documentURL \<and> search targetURL = search documentURL)"

text \<open>\<^verbatim>\<open>history.pushState({}, '', s)\<close> and \<^verbatim>\<open>history.replaceState({}, '', s)\<close>: the browser
  resolves \<open>s\<close> against the document's base URL and refuses, with a SecurityError, a URL
  that does not parse or to which the document's URL cannot be rewritten; otherwise the
  location becomes that URL.\<close>

definition history_pushState ::
  "'q platform \<Rightarrow> jsstring \<Rightarrow> ('q, 'r) window \<Rightarrow> js_error + ('q, 'r) window"
where
  "history_pushState pf s w =
     (case new_URL pf s (Some (baseURI w)) of
        None \<Rightarrow> Inl SecurityError
      | Some u \<Rightarrow>
          if can_have_its_URL_rewritten (location w) u
          then Inr (w\<lparr> location := u, trace := trace w @ [PushState s] \<rparr>)
          else Inl SecurityError)"

definition history_replaceState ::
  "'q platform \<Rightarrow> jsstring \<Rightarrow> ('q, 'r) window \<Rightarrow> js_error + ('q, 'r) window"
where
  "history_replaceState pf s w =
     (case new_URL pf s (Some (baseURI w)) of
        None \<Rightarrow> Inl SecurityError
      | Some u \<Rightarrow>
          if can_have_its_URL_rewritten (location w) u
          then Inr (w\<lparr> location := u, trace := trace w @ [ReplaceState s] \<rparr>)
          else Inl SecurityError)"

section \<open>Router.prefetch and Router._navigate\<close>

definition prefetch ::
  "'q platform \<Rightarrow> ('q, 'r, 'v) renderer \<Rightarrow> 'r router \<Rightarrow> url \<Rightarrow> ('q, 'r) window
     \<Rightarrow> ('q, 'r) window \<times> 'v promise"
where
  "prefetch pf rd r url w =
     (case parse pf r (location w) url of
        Inl e \<Rightarrow> (w, Rejected e)
      | Inr None \<Rightarrow>
          (w, Rejected (Error (str ''Attempted to prefetch a URL that does not belong to this app'')))
      | Inr (Some info) \<Rightarrow>
          (w\<lparr> trace := trace w @ [Load info] \<rparr>,
           case load rd info of
             Inl reason \<Rightarrow> Rejected (RendererError reason)
           | Inr v \<Rightarrow> Fulfilled v))"

text \<open>
  \<^verbatim>\<open>_navigate\<close> is an async function. It runs up to its \<^verbatim>\<open>await\<close> when it is called:
  \<open>navigate_start\<close>, which ends either with an exception (the promise is rejected) or
  suspended on the promise of \<^verbatim>\<open>renderer.update(info, chain, false)\<close>. The rest,
  \<open>navigate_resume\<close>, runs when that promise has settled.
\<close>

datatype ('q, 'r) suspended = Threw js_error | Awaiting "('q, 'r) navigation_info"

definition navigate_start ::
  "'q platform \<Rightarrow> 'r router \<Rightarrow> url \<Rightarrow> jsstring list \<Rightarrow> ('q, 'r) window
     \<Rightarrow> ('q, 'r) window \<times> ('q, 'r) suspended"
where
  "navigate_start pf r url chain w =
     (case parse pf r (location w) url of
        Inl e \<Rightarrow> (w, Threw e)
      | Inr None \<Rightarrow>
          (w, Threw (Error (str ''Attempted to navigate to a URL that does not belong to this app'')))
      | Inr (Some info) \<Rightarrow>
          (case (if path info \<noteq> str ''/'' \<and> incorrect (trailing_slash r) (path info)
                 then (let info' = info\<lparr> path := corrected_path (path info) \<rparr>
                       in case history_replaceState pf (path info' @ search (location w)) w of
                            Inl e \<Rightarrow> Inl e
                          | Inr w' \<Rightarrow> Inr (info', w'))
                 else Inr (info, w)) of
             Inl e \<Rightarrow> (w, Threw e)
           | Inr (info', w') \<Rightarrow>
               (w'\<lparr> trace := trace w' @ [Notify (path info') (query info'),
                                           Update info' chain False] \<rparr>,
                Awaiting info')))"

definition navigate_resume ::
  "('q, 'r, 'v) renderer \<Rightarrow> scroll_position option \<Rightarrow> jsstring list \<Rightarrow> jsstring option
     \<Rightarrow> ('q, 'r) suspended \<Rightarrow> ('q, 'r) window \<Rightarrow> ('q, 'r) window \<times> unit promise"
where
  "navigate_resume rd scroll chain hash_arg s w =
     (case s of
        Threw e \<Rightarrow> (w, Rejected e)
      | Awaiting info \<Rightarrow>
          (case update rd info chain False of
             Inl reason \<Rightarrow> (w, Rejected (RendererError reason))
           | Inr doc \<Rightarrow>
               let w1 = w\<lparr> trace := trace w @ [FocusBody] \<rparr>;
                   deep_linked =
                     (case hash_arg of
                        None \<Rightarrow> None
                      | Some h \<Rightarrow> if h = [] then None else getElementById doc (slice_from h 1))
               in (case scroll of
                     Some (x, y) \<Rightarrow> (w1\<lparr> trace := trace w1 @ [ScrollTo x y] \<rparr>, Fulfilled ())
                   | None \<Rightarrow>
                       (case deep_linked of
                          Some rect_top \<Rightarrow>
                            (w1\<lparr> trace := trace w1 @ [ScrollTo 0 (rect_top + scrollY doc)] \<rparr>,
                             Fulfilled ())
                        | None \<Rightarrow> (w1\<lparr> trace := trace w1 @ [ScrollTo 0 0] \<rparr>, Fulfilled ())))))"

definition navigate ::
  "'q platform \<Rightarrow> ('q, 'r, 'v) renderer \<Rightarrow> 'r router \<Rightarrow> url \<Rightarrow> scroll_position option
     \<Rightarrow> jsstring list \<Rightarrow> jsstring option \<Rightarrow> ('q, 'r) window
     \<Rightarrow> ('q, 'r) window \<times> unit promise"
where
  "navigate pf rd r url scroll chain hash_arg w =
     (let (w', s) = navigate_start pf r url chain w
      in navigate_resume rd scroll chain hash_arg s w')"

section \<open>Router.goto, Router.enable and Router.disable\<close>

text \<open>\<open>get_base_uri(document)\<close> is the document's base URL, \<open>baseURI\<close>. A TypeError of
  \<^verbatim>\<open>new URL\<close> or an exception of the history call rejects the promise of \<^verbatim>\<open>goto\<close>.\<close>

definition goto ::
  "'q platform \<Rightarrow> ('q, 'r, 'v) renderer \<Rightarrow> 'r router \<Rightarrow> jsstring \<Rightarrow> bool \<Rightarrow> bool
     \<Rightarrow> jsstring list \<Rightarrow> ('q, 'r) window \<Rightarrow> ('q, 'r) window \<times> unit promise"
where
  "goto pf rd r href_arg noscroll replaceState chain w =
     (case new_URL pf href_arg (Some (baseURI w)) of
        None \<Rightarrow> (w, Rejected TypeError)
      | Some url \<Rightarrow>
          if enabled r \<and> owns r (location w) url then
            (case (if replaceState then history_replaceState pf href_arg w
                   else history_pushState pf href_arg w) of
               Inl e \<Rightarrow> (w, Rejected e)
             | Inr w' \<Rightarrow>
                 navigate pf rd r url (if noscroll then Some (scroll_state w') else None)
                   chain (Some (hash url)) w')
          else (w\<lparr> trace := trace w @ [SetLocationHref (href url)] \<rparr>, Never_settles))"

definition enable :: "'r router \<Rightarrow> 'r router" where
  "enable r = r\<lparr> enabled := True \<rparr>"

definition disable :: "'r router \<Rightarrow> 'r router" where
  "disable r = r\<lparr> enabled := False \<rparr>"

section \<open>The listeners installed by Router.init\<close>

text \<open>
  The listeners for clicks, for popstate and for prefetching (touchstart, and mousemove
  through a timer). Each is a function of the router, the event and the browser state.
  The listeners that record the scroll position and switch \<^verbatim>\<open>history.scrollRestoration\<close>
  are not part of this development.
\<close>

text \<open>\<^verbatim>\<open>nodeName.toUpperCase()\<close>, on the letters a to z. No other character has the
  upper case \<^verbatim>\<open>A\<close>, which is all that \<^verbatim>\<open>find_anchor\<close> compares the result with.\<close>

definition toUpperCase :: "jsstring \<Rightarrow> jsstring" where
  "toUpperCase s = map (\<lambda>c. if 97 \<le> c \<and> c \<le> 122 then c - 32 else c) s"

fun find_anchor :: "node list \<Rightarrow> node option" where
  "find_anchor [] = None"
| "find_anchor (n # ns) =
     (if toUpperCase (nodeName n) \<noteq> str ''A'' then find_anchor ns else Some n)"

text \<open>Truthiness of \<^verbatim>\<open>a.href\<close>: an animated string is an object, a string is truthy unless
  it is empty.\<close>

definition truthy :: "href_value \<Rightarrow> bool" where
  "truthy v = (case v of Str s \<Rightarrow> s \<noteq> [] | SVGAnimatedString b \<Rightarrow> True)"

definition hasAttribute :: "node \<Rightarrow> jsstring \<Rightarrow> bool" where
  "hasAttribute a name = (attributes a name \<noteq> None)"

text \<open>The white space and line terminators that \<^verbatim>\<open>\s\<close> matches, and \<^verbatim>\<open>s.split(/\s+/)\<close>.\<close>

definition is_space :: "nat \<Rightarrow> bool" where
  "is_space c =
     (c \<in> {9, 10, 11, 12, 13, 32, 160, 5760, 8232, 8233, 8239, 8287, 12288, 65279}
      \<or> (8192 \<le> c \<and> c \<le> 8202))"

fun split_spaces :: "jsstring \<Rightarrow> jsstring list" where
  "split_spaces [] = [[]]"
| "split_spaces (c # cs) =
     (if is_space c then
        (case cs of
           [] \<Rightarrow> [[], []]
         | c' # _ \<Rightarrow> if is_space c' then split_spaces cs else [] # split_spaces cs)
      else (case split_spaces cs of
              [] \<Rightarrow> [[c]]
            | piece # pieces \<Rightarrow> (c # piece) # pieces))"

definition trigger_prefetch ::
  "'q platform \<Rightarrow> ('q, 'r, 'v) renderer \<Rightarrow> 'r router \<Rightarrow> mouse_event \<Rightarrow> ('q, 'r) window
     \<Rightarrow> ('q, 'r) window"
where
  "trigger_prefetch pf rd r event w =
     (case find_anchor (target event) of
        None \<Rightarrow> w
      | Some a \<Rightarrow>
          if truthy (href_of a) \<and> hasAttribute a (str ''sveltekit:prefetch'') then
            (case href_of a of
               SVGAnimatedString b \<Rightarrow> w
             | Str s \<Rightarrow>
                 (case new_URL pf s None of
                    None \<Rightarrow> w
                  | Some url \<Rightarrow> fst (prefetch pf rd r url w)))
          else w)"

definition handle_mousemove :: "mouse_event \<Rightarrow> ('q, 'r) window \<Rightarrow> ('q, 'r) window" where
  "handle_mousemove event w = w\<lparr> mousemove_timeout := Some event \<rparr>"

definition mousemove_timeout_fires ::
  "'q platform \<Rightarrow> ('q, 'r, 'v) renderer \<Rightarrow> 'r router \<Rightarrow> ('q, 'r) window \<Rightarrow> ('q, 'r) window"
where
  "mousemove_timeout_fires pf rd r w =
     (case mousemove_timeout w of
        None \<Rightarrow> w
      | Some event \<Rightarrow> trigger_prefetch pf rd r event (w\<lparr> mousemove_timeout := None \<rparr>))"

text \<open>
  The click listener. An exception of \<^verbatim>\<open>new URL\<close> or of \<^verbatim>\<open>history.pushState\<close> ends the
  listener where it is thrown. The promise of \<^verbatim>\<open>_navigate\<close> is dropped; what
  \<^verbatim>\<open>_navigate\<close> does after its \<^verbatim>\<open>await\<close> happens after the listener has returned.
\<close>

definition click ::
  "'q platform \<Rightarrow> ('q, 'r, 'v) renderer \<Rightarrow> 'r router \<Rightarrow> mouse_event \<Rightarrow> ('q, 'r) window
     \<Rightarrow> ('q, 'r) window"
where
  "click pf rd r event w =
     (if \<not> enabled r then w
      else if button event \<noteq> 0 \<or> which event \<noteq> 1 then w
      else if metaKey event \<or> ctrlKey event \<or> shiftKey event \<or> altKey event then w
      else if defaultPrevented event then w
      else
        (case find_anchor (target event) of
           None \<Rightarrow> w
         | Some a \<Rightarrow>
             if \<not> truthy (href_of a) then w
             else
               let svg = (case href_of a of SVGAnimatedString b \<Rightarrow> True | Str s \<Rightarrow> False);
                   href_str = (case href_of a of SVGAnimatedString b \<Rightarrow> b | Str s \<Rightarrow> s)
               in
               if href_str = href (location w) then
                 (if hash (location w) = [] then w\<lparr> trace := trace w @ [PreventDefault] \<rparr>
                  else w)
               else
                 let rel = map_option split_spaces (attributes a (str ''rel'')) in
                 if hasAttribute a (str ''download'')
                    \<or> (case rel of None \<Rightarrow> False | Some ws \<Rightarrow> str ''external'' \<in> set ws)
                 then w
                 else if (if svg
                          then (case target_of a of SVGAnimatedString b \<Rightarrow> b \<noteq> [] | Str s \<Rightarrow> False)
                          else truthy (target_of a))
                 then w
                 else
                   (case new_URL pf href_str None of
                      None \<Rightarrow> w
                    | Some url \<Rightarrow>
                        if \<not> owns r (location w) url then w
                        else
                          let noscroll = hasAttribute a (str ''sveltekit:noscroll'') in
                          (case history_pushState pf (href url) w of
                             Inl e \<Rightarrow> w
                           | Inr w1 \<Rightarrow>
                               let (w2, s) = navigate_start pf r url [] w1;
                                   w3 = w2\<lparr> trace := trace w2 @ [PreventDefault] \<rparr>
                               in fst (navigate_resume rd
                                         (if noscroll then Some (scroll_state w1) else None)
                                         [] (Some (hash url)) s w3)))))"

definition popstate ::
  "'q platform \<Rightarrow> ('q, 'r, 'v) renderer \<Rightarrow> 'r router \<Rightarrow> popstate_event \<Rightarrow> ('q, 'r) window
     \<Rightarrow> ('q, 'r) window"
where
  "popstate pf rd r event w =
     (case state event of
        None \<Rightarrow> w
      | Some st \<Rightarrow>
          if enabled r then
            (case new_URL pf (href (location w)) None of
               None \<Rightarrow> w
             | Some url \<Rightarrow> fst (navigate pf rd r url st [] None w))
          else w)"

section \<open>Notions of the specification\<close>

text \<open>The final segment of a path: what follows its last \<^verbatim>\<open>/\<close>.\<close>

definition final_segment :: "jsstring \<Rightarrow> jsstring" where
  "final_segment p = rev (takeWhile (\<lambda>c. c \<noteq> of_char CHR ''/'') (rev p))"

text \<open>A path is canonical under a policy when the policy has nothing to object to: under
  \<open>Never\<close> it has no trailing slash, under \<open>Always\<close> it has one or its last segment looks
  like a file name; the root path is canonical under every policy.\<close>

definition canonical :: "trailing_slash \<Rightarrow> jsstring \<Rightarrow> bool" where
  "canonical ts p =
     (p = str ''/'' \<or>
      (case ts of
         Never \<Rightarrow> \<not> has_trailing_slash p
       | Always \<Rightarrow> has_trailing_slash p
                   \<or> includes_unit (pop (split_unit (of_char CHR ''/'') p)) (of_char CHR ''.'')
       | Ignore \<Rightarrow> True))"

text \<open>The base-stripped pathname of a URL, or \<^verbatim>\<open>/\<close> if that is empty.\<close>

definition base_stripped :: "'r router \<Rightarrow> url \<Rightarrow> jsstring" where
  "base_stripped r u =
     (if drop (length (base r)) (pathname u) = [] then str ''/''
      else drop (length (base r)) (pathname u))"

text \<open>The errors with which \<^verbatim>\<open>prefetch\<close> and \<^verbatim>\<open>_navigate\<close> reject a URL that the app does not
  own.\<close>

definition prefetch_error :: js_error where
  "prefetch_error = Error (str ''Attempted to prefetch a URL that does not belong to this app'')"

definition navigate_error :: js_error where
  "navigate_error = Error (str ''Attempted to navigate to a URL that does not belong to this app'')"

text \<open>What the click listener reads off the anchor it has found: the string it compares
  with the location, whether \<^verbatim>\<open>rel\<close> contains \<^verbatim>\<open>external\<close>, whether the anchor has a target,
  and whether it goes on with the anchor at all.\<close>

definition href_string :: "node \<Rightarrow> jsstring" where
  "href_string a = (case href_of a of SVGAnimatedString b \<Rightarrow> b | Str s \<Rightarrow> s)"

definition rel_external :: "node \<Rightarrow> bool" where
  "rel_external a =
     (case attributes a (str ''rel'') of
        None \<Rightarrow> False
      | Some rel \<Rightarrow> str ''external'' \<in> set (split_spaces rel))"

definition targeted :: "node \<Rightarrow> bool" where
  "targeted a =
     (case href_of a of
        SVGAnimatedString h \<Rightarrow> (case target_of a of SVGAnimatedString b \<Rightarrow> b \<noteq> [] | Str s \<Rightarrow> False)
      | Str h \<Rightarrow> truthy (target_of a))"

definition accepted :: "'r router \<Rightarrow> mouse_event \<Rightarrow> node \<Rightarrow> bool" where
  "accepted r event a =
     (enabled r \<and> button event = 0 \<and> which event = 1
      \<and> \<not> metaKey event \<and> \<not> ctrlKey event \<and> \<not> shiftKey event \<and> \<not> altKey event
      \<and> \<not> defaultPrevented event
      \<and> find_anchor (target event) = Some a \<and> truthy (href_of a))"

section \<open>An example application\<close>

text \<open>
  A document served from \<^verbatim>\<open>http://localhost\<close>. \<open>mk_url\<close> makes a URL without user name and
  password from its origin, pathname, search and hash. The example platform parses the
  URLs that the examples below use the way a browser does, absolute ones and references
  resolved against the document, and knows no other; its search parameters print as the search
  string without the leading question mark, which is what a browser prints for
  \<^verbatim>\<open>?x=1\<close>.
\<close>

definition mk_url :: "string \<Rightarrow> string \<Rightarrow> string \<Rightarrow> string \<Rightarrow> url" where
  "mk_url orig p s h =
     \<lparr> href = str (orig @ p @ s @ h),
       protocol = str (takeWhile (\<lambda>c. c \<noteq> CHR ''/'') orig),
       username = [], password = [],
       host = str (drop 2 (dropWhile (\<lambda>c. c \<noteq> CHR ''/'') orig)),
       origin = str orig, pathname = str p, search = str s, hash = str h \<rparr>"

text \<open>The URL \<^verbatim>\<open>http://user@localhost/about\<close>: the origin of the document, with a user
  name.\<close>

definition user_about_url :: url where
  "user_about_url =
     (mk_url ''http://localhost'' ''/about'' [] [])
       \<lparr> href := str ''http://user@localhost/about'', username := str ''user'' \<rparr>"

definition absolute_URLs :: "(jsstring \<times> url) list" where
  "absolute_URLs =
     [(str ''http://localhost/page'', mk_url ''http://localhost'' ''/page'' [] []),
      (str ''http://localhost/page#section'', mk_url ''http://localhost'' ''/page'' [] ''#section''),
      (str ''http://localhost/about'', mk_url ''http://localhost'' ''/about'' [] []),
      (str ''http://localhost/about/'', mk_url ''http://localhost'' ''/about/'' [] []),
      (str ''http://localhost/app/about/?x=1'', mk_url ''http://localhost'' ''/app/about/'' ''?x=1'' []),
      (str ''https://example.com/'', mk_url ''https://example.com'' ''/'' [] []),
      (str ''http://user@localhost/about'', user_about_url)]"

definition relative_URLs :: "(jsstring \<times> url) list" where
  "relative_URLs =
     [(str ''/about'', mk_url ''http://localhost'' ''/about'' [] []),
      (str ''/about?x=1'', mk_url ''http://localhost'' ''/about'' ''?x=1'' [])]"

definition example_platform :: "jsstring platform" where
  "example_platform =
     \<lparr> new_URL = (\<lambda>s b. case map_of absolute_URLs s of
                            Some u \<Rightarrow> Some u
                          | None \<Rightarrow> (case b of None \<Rightarrow> None | Some _ \<Rightarrow> map_of relative_URLs s)),
       URLSearchParams = (\<lambda>s. s),
       toString = (\<lambda>q. if startsWith q (str ''?'') then slice_from q 1 else q) \<rparr>"

definition example_renderer :: "(jsstring, unit, unit) renderer" where
  "example_renderer =
     \<lparr> load = (\<lambda>info. Inr ()),
       update = (\<lambda>info chain noscroll.
                   Inr \<lparr> getElementById = (\<lambda>i. if i = str ''section'' then Some 120 else None),
                         scrollY = 0 \<rparr>) \<rparr>"

definition example_router :: "string \<Rightarrow> trailing_slash \<Rightarrow> unit router" where
  "example_router b ts =
     \<lparr> base = str b, routes = [((\<lambda>p. p = str ''/about''), ())], trailing_slash = ts,
       enabled = True \<rparr>"

definition example_window :: "url \<Rightarrow> (jsstring, unit) window" where
  "example_window loc =
     \<lparr> location = loc, base_href = None, pageXOffset = 0, pageYOffset = 0,
       mousemove_timeout = None, trace = [] \<rparr>"

text \<open>An HTML anchor with the given \<^verbatim>\<open>href\<close> and attributes, inside a \<^verbatim>\<open>span\<close> that is clicked,
  touched or hovered with the primary button and no modifier key.\<close>

definition example_anchor :: "string \<Rightarrow> (string \<times> string) list \<Rightarrow> node" where
  "example_anchor h attrs =
     \<lparr> nodeName = str ''A'', href_of = Str (str h), target_of = Str [],
       attributes = map_of (map (\<lambda>(k, v). (str k, str v)) attrs) \<rparr>"

definition example_event :: "node \<Rightarrow> mouse_event" where
  "example_event a =
     \<lparr> button = 0, which = 1, metaKey = False, ctrlKey = False, shiftKey = False,
       altKey = False, defaultPrevented = False,
       target = [\<lparr> nodeName = str ''SPAN'', href_of = Str [], target_of = Str [],
                    attributes = Map.empty \<rparr>, a] \<rparr>"

section \<open>Facts about strings\<close>

lemma split_unit_nonempty: "split_unit sep s \<noteq> []"
  by (induction s) (auto split: list.splits)

lemma split_unit_no_sep: "sep \<notin> set s \<Longrightarrow> split_unit sep s = [s]"
  by (induction s) auto

lemma split_unit_sep: "sep \<in> set s \<Longrightarrow> \<exists>a b bs. split_unit sep s = a # b # bs"
proof (induction s)
  case Nil
  then show ?case by simp
next
  case (Cons c cs)
  show ?case
  proof (cases "c = sep")
    case True
    obtain a as where "split_unit sep cs = a # as"
      using split_unit_nonempty [of sep cs] by (cases "split_unit sep cs") simp_all
    with True show ?thesis by simp
  next
    case False
    with Cons.prems have "sep \<in> set cs" by simp
    from Cons.IH [OF this] obtain a b bs where "split_unit sep cs = a # b # bs" by blast
    with False show ?thesis by simp
  qed
qed

text \<open>The last piece of \<^verbatim>\<open>split\<close> is what follows the last separator.\<close>

lemma last_split_unit:
  "last (split_unit sep s) = rev (takeWhile (\<lambda>c. c \<noteq> sep) (rev s))"
proof (induction s)
  case Nil
  show ?case by simp
next
  case (Cons c cs)
  show ?case
  proof (cases "c = sep")
    case True
    have "takeWhile (\<lambda>c. c \<noteq> sep) (rev cs @ [sep]) = takeWhile (\<lambda>c. c \<noteq> sep) (rev cs)"
      by (rule takeWhile_tail) simp
    with True Cons show ?thesis
      by (simp add: split_unit_nonempty)
  next
    case False
    show ?thesis
    proof (cases "sep \<in> set cs")
      case True
      then obtain a b bs where sp: "split_unit sep cs = a # b # bs"
        using split_unit_sep by blast
      from True have "sep \<in> set (rev cs)" by simp
      then have "takeWhile (\<lambda>c. c \<noteq> sep) (rev cs @ [c]) = takeWhile (\<lambda>c. c \<noteq> sep) (rev cs)"
        by (rule takeWhile_append1) simp
      with Cons sp False show ?thesis by simp
    next
      case no: False
      have tw: "takeWhile (\<lambda>c. c \<noteq> sep) (rev cs @ [c]) = rev cs @ takeWhile (\<lambda>c. c \<noteq> sep) [c]"
        by (rule takeWhile_append2) (use no in auto)
      have sp: "split_unit sep (c # cs) = [c # cs]"
        using no False by (simp add: split_unit_no_sep)
      have r: "rev (takeWhile (\<lambda>c. c \<noteq> sep) (rev (c # cs))) = c # cs"
        using False by (simp only: rev.simps tw) simp
      show ?thesis unfolding sp r by simp
    qed
  qed
qed

lemma pop_split_final_segment: "pop (split_unit (of_char CHR ''/'') p) = final_segment p"
  by (simp add: pop_def final_segment_def last_split_unit)

lemma has_trailing_slash_iff:
  "has_trailing_slash p \<longleftrightarrow> p \<noteq> [] \<and> last p = of_char CHR ''/''"
proof (cases p rule: rev_cases)
  case Nil
  then show ?thesis by (simp add: has_trailing_slash_def endsWith_def str_def)
next
  case (snoc q c)
  then show ?thesis by (simp add: has_trailing_slash_def endsWith_def str_def)
qed

lemma decodeURIComponent_no_escape:
  "of_char CHR ''%'' \<notin> set s \<Longrightarrow> decodeURIComponent s = Some s"
  by (induction s) auto

section \<open>Facts about parse\<close>

lemma parse_cases:
  "parse pf r loc u =
     (if origin u = origin loc \<and> startsWith (pathname u) (base r) then
        (case decodeURIComponent (base_stripped r u) of
           None \<Rightarrow> Inl URIError
         | Some p \<Rightarrow>
             Inr (Some \<lparr> id_nav = p @ str ''?'' @ toString pf (URLSearchParams pf (search u)),
                         routes_nav = filter (\<lambda>(pattern, _). pattern p) (routes r),
                         path = p, query = URLSearchParams pf (search u) \<rparr>))
      else Inr None)"
  by (simp add: parse_def owns_def base_stripped_def slice_from_def Let_def split: option.splits)

lemma base_stripped_no_escape:
  "of_char CHR ''%'' \<notin> set (pathname u) \<Longrightarrow> of_char CHR ''%'' \<notin> set (base_stripped r u)"
  by (auto simp: base_stripped_def str_def dest: in_set_dropD)

section \<open>Facts about the normalization\<close>

lemma incorrect_changes: "incorrect ts p \<Longrightarrow> corrected_path p \<noteq> p"
  by (cases p rule: rev_cases)
     (auto simp: incorrect_def corrected_path_def slice_0_minus1_def has_trailing_slash_iff str_def)

lemma normalized_Never: "q \<noteq> [] \<Longrightarrow> normalized_path Never (q @ str ''/'') = q"
  by (simp add: normalized_path_def incorrect_def corrected_path_def slice_0_minus1_def
        has_trailing_slash_iff str_def)

lemma normalized_Ignore: "normalized_path Ignore p = p"
  by (simp add: normalized_path_def incorrect_def)

lemma canonical_iff_fixed: "canonical ts p \<longleftrightarrow> normalized_path ts p = p"
  using incorrect_changes [of ts p]
  by (cases ts) (auto simp: canonical_def normalized_path_def incorrect_def)

lemma endsWith_two_slashes:
  "endsWith (q @ str ''/'') (str ''//'') \<longleftrightarrow> has_trailing_slash q"
proof (cases q rule: rev_cases)
  case Nil
  then show ?thesis by (simp add: endsWith_def has_trailing_slash_iff str_def)
next
  case (snoc q' c)
  then show ?thesis by (simp add: endsWith_def has_trailing_slash_iff str_def)
qed

lemma endsWith_two_slashes_trailing:
  assumes "endsWith p (str ''//'')"
  shows "has_trailing_slash p"
proof (cases p rule: rev_cases)
  case Nil
  with assms show ?thesis by (simp add: endsWith_def str_def)
next
  case (snoc q c)
  with assms show ?thesis
    by (cases q rule: rev_cases) (auto simp add: endsWith_def has_trailing_slash_iff str_def)
qed

lemma normalized_Always_idem:
  "normalized_path Always (normalized_path Always p) = normalized_path Always p"
  by (auto simp: normalized_path_def incorrect_def corrected_path_def has_trailing_slash_iff
        str_def)

lemma normalized_Never_idem_iff:
  "normalized_path Never (normalized_path Never p) = normalized_path Never p \<longleftrightarrow>
     \<not> (endsWith p (str ''//'') \<and> p \<noteq> str ''//'')"
proof (cases "has_trailing_slash p")
  case False
  then have "normalized_path Never p = p"
    by (simp add: normalized_path_def incorrect_def)
  moreover from False have "\<not> endsWith p (str ''//'')"
    using endsWith_two_slashes_trailing by blast
  ultimately show ?thesis by simp
next
  case True
  then obtain q where p: "p = q @ str ''/''"
    by (cases p rule: rev_cases) (auto simp: has_trailing_slash_iff str_def)
  show ?thesis
  proof (cases "q = []")
    case True
    with p show ?thesis by (simp add: normalized_path_def endsWith_def str_def)
  next
    case False
    then have n: "normalized_path Never p = q" using p by (simp add: normalized_Never)
    have "normalized_path Never q = q \<longleftrightarrow> \<not> (has_trailing_slash q \<and> q \<noteq> str ''/'')"
      using incorrect_changes [of Never q]
      by (auto simp: normalized_path_def incorrect_def)
    moreover have "p \<noteq> str ''//'' \<longleftrightarrow> q \<noteq> str ''/''" using p by (simp add: str_def)
    ultimately show ?thesis using n p endsWith_two_slashes by simp
  qed
qed

section \<open>Facts about parse, prefetch and _navigate\<close>

lemma parse_Some_fields:
  assumes "parse pf r loc u = Inr (Some info)"
  shows "id_nav info = path info @ str ''?'' @ toString pf (query info)"
    and "routes_nav info = filter (\<lambda>(pattern, _). pattern (path info)) (routes r)"
    and "query info = URLSearchParams pf (search u)"
    and "decodeURIComponent (base_stripped r u) = Some (path info)"
  using assms by (auto simp: parse_cases split: if_splits option.splits)

lemma parse_enabled_irrelevant: "parse pf (r\<lparr> enabled := e \<rparr>) loc u = parse pf r loc u"
  by (simp add: parse_def owns_def Let_def split: option.splits)

lemma navigate_start_absent:
  "parse pf r (location w) url = Inr None \<Longrightarrow>
     navigate_start pf r url chain w = (w, Threw navigate_error)"
  by (simp add: navigate_start_def navigate_error_def)

lemma navigate_start_throws:
  "parse pf r (location w) url = Inl e \<Longrightarrow> navigate_start pf r url chain w = (w, Threw e)"
  by (simp add: navigate_start_def)

lemma normalized_path_eq:
  "normalized_path ts p = (if p \<noteq> str ''/'' \<and> incorrect ts p then corrected_path p else p)"
  by (simp add: normalized_path_def)

lemma normalization_changes_iff:
  "normalized_path ts p \<noteq> p \<longleftrightarrow> p \<noteq> str ''/'' \<and> incorrect ts p"
  using incorrect_changes [of ts p] by (auto simp: normalized_path_eq)

lemma navigate_start_unchanged:
  assumes "parse pf r (location w) url = Inr (Some info)"
    and "normalized_path (trailing_slash r) (path info) = path info"
  shows "navigate_start pf r url chain w =
           (w\<lparr> trace := trace w @ [Notify (path info) (query info), Update info chain False] \<rparr>,
            Awaiting info)"
  using assms normalization_changes_iff [of "trailing_slash r" "path info"]
  by (auto simp add: navigate_start_def)

lemma navigate_start_changed:
  assumes "parse pf r (location w) url = Inr (Some info)"
    and "normalized_path (trailing_slash r) (path info) \<noteq> path info"
  shows "navigate_start pf r url chain w =
           (case history_replaceState pf
                   (normalized_path (trailing_slash r) (path info) @ search (location w)) w of
              Inl e \<Rightarrow> (w, Threw e)
            | Inr w' \<Rightarrow>
                (w'\<lparr> trace := trace w' @
                        [Notify (normalized_path (trailing_slash r) (path info)) (query info),
                         Update (info\<lparr> path := normalized_path (trailing_slash r) (path info) \<rparr>)
                           chain False] \<rparr>,
                 Awaiting (info\<lparr> path := normalized_path (trailing_slash r) (path info) \<rparr>)))"
proof -
  from assms(2) have c: "path info \<noteq> str ''/'' \<and> incorrect (trailing_slash r) (path info)"
    by (simp add: normalization_changes_iff)
  then have n: "normalized_path (trailing_slash r) (path info) = corrected_path (path info)"
    by (simp add: normalized_path_eq)
  show ?thesis
    unfolding n using assms(1) c
    by (simp add: navigate_start_def Let_def split: sum.splits)
qed

lemma navigate_resume_Awaiting_not_Error:
  "snd (navigate_resume rd scroll chain h (Awaiting info) w) \<noteq> Rejected (Error m)"
  by (auto simp: navigate_resume_def Let_def split: sum.splits option.splits prod.splits)

lemma navigate_resume_Threw:
  "navigate_resume rd scroll chain h (Threw e) w = (w, Rejected e)"
  by (simp add: navigate_resume_def)

lemma history_replaceState_error:
  "history_replaceState pf s w = Inl e \<Longrightarrow> e = SecurityError"
  by (auto simp: history_replaceState_def split: option.splits if_splits)

lemma history_accepts:
  assumes "new_URL pf s (Some (baseURI w)) = Some url"
    and "can_have_its_URL_rewritten (location w) url"
  shows "history_pushState pf s w = Inr (w\<lparr> location := url, trace := trace w @ [PushState s] \<rparr>)"
    and "history_replaceState pf s w
           = Inr (w\<lparr> location := url, trace := trace w @ [ReplaceState s] \<rparr>)"
  using assms by (simp_all add: history_pushState_def history_replaceState_def)

lemma history_refuses:
  assumes "new_URL pf s (Some (baseURI w)) = Some url"
    and "\<not> can_have_its_URL_rewritten (location w) url"
  shows "history_pushState pf s w = Inl SecurityError"
    and "history_replaceState pf s w = Inl SecurityError"
  using assms by (simp_all add: history_pushState_def history_replaceState_def)

lemma mk_url_fields:
  "href (mk_url orig p s h) = str (orig @ p @ s @ h)"
  "username (mk_url orig p s h) = []"
  "password (mk_url orig p s h) = []"
  "origin (mk_url orig p s h) = str orig"
  "pathname (mk_url orig p s h) = str p"
  "search (mk_url orig p s h) = str s"
  "hash (mk_url orig p s h) = str h"
  by (simp_all add: mk_url_def)

lemma localhost_rewritable:
  "can_have_its_URL_rewritten (mk_url ''http://localhost'' p s h) (mk_url ''http://localhost'' p' s' h')"
  by (simp add: can_have_its_URL_rewritten_def mk_url_def str_def)

lemma navigate_ownership_error_iff:
  "snd (navigate pf rd r url scroll chain h w) = Rejected navigate_error
     \<longleftrightarrow> parse pf r (location w) url = Inr None"
proof (cases "parse pf r (location w) url")
  case (Inl e)
  then have "e = URIError" by (auto simp: parse_cases split: if_splits option.splits)
  with Inl show ?thesis
    by (simp add: navigate_def navigate_start_throws navigate_resume_Threw navigate_error_def)
next
  case (Inr res)
  show ?thesis
  proof (cases res)
    case None
    with Inr show ?thesis
      by (simp add: navigate_def navigate_start_absent navigate_resume_Threw)
  next
    case (Some info)
    show ?thesis
    proof (cases "normalized_path (trailing_slash r) (path info) = path info")
      case True
      with Inr Some show ?thesis
        by (simp add: navigate_def navigate_start_unchanged navigate_error_def
              navigate_resume_Awaiting_not_Error)
    next
      case False
      with Inr Some show ?thesis
        by (auto simp add: navigate_def navigate_start_changed navigate_error_def
              navigate_resume_Threw navigate_resume_Awaiting_not_Error
              split: sum.splits dest: history_replaceState_error)
    qed
  qed
qed

lemma prefetch_ownership_error_iff:
  "snd (prefetch pf rd r url w) = Rejected prefetch_error
     \<longleftrightarrow> parse pf r (location w) url = Inr None"
proof (cases "parse pf r (location w) url")
  case (Inl e)
  then have "e = URIError" by (auto simp: parse_cases split: if_splits option.splits)
  with Inl show ?thesis by (simp add: prefetch_def prefetch_error_def)
next
  case (Inr res)
  then show ?thesis
    by (cases res) (auto simp: prefetch_def prefetch_error_def split: sum.splits)
qed

lemma prefetch_enabled_irrelevant:
  "prefetch pf rd (r\<lparr> enabled := e \<rparr>) url w = prefetch pf rd r url w"
  by (simp add: prefetch_def parse_enabled_irrelevant)

lemma navigate_start_trace:
  "\<exists>es. trace (fst (navigate_start pf r url chain w)) = trace w @ es"
  by (auto simp: navigate_start_def history_replaceState_def Let_def
        split: sum.splits option.splits if_splits)

lemma navigate_resume_trace:
  "\<exists>es. trace (fst (navigate_resume rd scroll chain h s w)) = trace w @ es"
  by (auto simp: navigate_resume_def Let_def split: suspended.splits sum.splits option.splits)

lemma navigate_trace:
  "\<exists>es. trace (fst (navigate pf rd r url scroll chain h w)) = trace w @ es"
proof -
  obtain w' s where st: "navigate_start pf r url chain w = (w', s)"
    by (cases "navigate_start pf r url chain w")
  from navigate_start_trace [of pf r url chain w] st
  obtain es where 1: "trace w' = trace w @ es" by auto
  from navigate_resume_trace [of rd scroll chain h s w']
  obtain es' where 2: "trace (fst (navigate_resume rd scroll chain h s w')) = trace w' @ es'"
    by auto
  from st 1 2 show ?thesis by (simp add: navigate_def)
qed

lemma navigate_start_path:
  assumes "parse pf r (location w) url = Inr (Some info)"
    and "navigate_start pf r url chain w = (w', Awaiting info')"
  shows "path info' = normalized_path (trailing_slash r) (path info)"
proof (cases "normalized_path (trailing_slash r) (path info) = path info")
  case True
  with assms show ?thesis
    using navigate_start_unchanged [OF assms(1) True, of chain] by simp
next
  case False
  with assms show ?thesis
    using navigate_start_changed [OF assms(1) False, of chain]
    by (auto split: sum.splits)
qed

section \<open>Facts about the listeners\<close>

lemma click_same_href:
  assumes "accepted r event a" and "href_string a = href (location w)"
  shows "click pf rd r event w =
           (if hash (location w) = [] then w\<lparr> trace := trace w @ [PreventDefault] \<rparr> else w)"
  using assms
  by (simp add: click_def accepted_def href_string_def Let_def)

lemma click_other_href:
  assumes "accepted r event a" and "href_string a \<noteq> href (location w)"
  shows "click pf rd r event w =
           (if hasAttribute a (str ''download'') \<or> rel_external a then w
            else if targeted a then w
            else (case new_URL pf (href_string a) None of
                    None \<Rightarrow> w
                  | Some url \<Rightarrow>
                      if \<not> owns r (location w) url then w
                      else (case history_pushState pf (href url) w of
                              Inl e \<Rightarrow> w
                            | Inr w1 \<Rightarrow>
                                fst (navigate_resume rd
                                       (if hasAttribute a (str ''sveltekit:noscroll'')
                                        then Some (scroll_state w1) else None)
                                       [] (Some (hash url))
                                       (snd (navigate_start pf r url [] w1))
                                       ((fst (navigate_start pf r url [] w1))
                                          \<lparr> trace := trace (fst (navigate_start pf r url [] w1))
                                                      @ [PreventDefault] \<rparr>)))))"
  using assms
  by (simp add: click_def accepted_def href_string_def rel_external_def targeted_def Let_def
        split_beta split: href_value.splits option.splits sum.splits)

lemma click_disabled: "\<not> enabled r \<Longrightarrow> click pf rd r event w = w"
  by (simp add: click_def)

lemma popstate_disabled: "\<not> enabled r \<Longrightarrow> popstate pf rd r event w = w"
  by (simp add: popstate_def split: option.splits)

lemma trigger_prefetch_enabled_irrelevant:
  "trigger_prefetch pf rd (r\<lparr> enabled := e \<rparr>) event w = trigger_prefetch pf rd r event w"
  by (simp add: trigger_prefetch_def prefetch_enabled_irrelevant
        split: option.splits href_value.splits)

section \<open>Facts about the example application\<close>

lemma accepted_example:
  "enabled r \<Longrightarrow> h \<noteq> [] \<Longrightarrow> accepted r (example_event (example_anchor h attrs)) (example_anchor h attrs)"
  by (simp add: accepted_def example_event_def example_anchor_def toUpperCase_def truthy_def
        str_def)

lemma example_anchor_props:
  "href_string (example_anchor h attrs) = str h"
  "\<not> targeted (example_anchor h attrs)"
  by (simp_all add: href_string_def targeted_def example_anchor_def truthy_def)

lemma example_new_URL_page_section:
  "new_URL example_platform (str ''http://localhost/page#section'') b
     = Some (mk_url ''http://localhost'' ''/page'' [] ''#section'')"
  by (simp add: example_platform_def absolute_URLs_def str_def)

lemma example_new_URL_about:
  "new_URL example_platform (str ''http://localhost/about'') b
     = Some (mk_url ''http://localhost'' ''/about'' [] [])"
  by (simp add: example_platform_def absolute_URLs_def str_def)

lemma example_parse_page_section:
  "parse example_platform (example_router [] Ignore)
     (mk_url ''http://localhost'' ''/page'' [] ''#section'')
     (mk_url ''http://localhost'' ''/page'' [] ''#section'')
   = Inr (Some \<lparr> id_nav = str ''/page?'', routes_nav = [], path = str ''/page'', query = [] \<rparr>)"
proof -
  let ?r = "example_router [] Ignore"
  let ?u = "mk_url ''http://localhost'' ''/page'' [] ''#section''"
  have o: "origin ?u = origin ?u \<and> startsWith (pathname ?u) (base ?r)"
    by (simp add: mk_url_def example_router_def startsWith_def str_def)
  have s: "base_stripped ?r ?u = str ''/page''"
    by (simp add: base_stripped_def mk_url_def example_router_def str_def)
  have d: "decodeURIComponent (str ''/page'') = Some (str ''/page'')" by code_simp
  from o s d show ?thesis
    by (simp add: parse_cases)
       (simp add: example_platform_def example_router_def mk_url_def startsWith_def str_def)
qed

lemma example_parse_page:
  "parse example_platform (example_router [] Ignore)
     (mk_url ''http://localhost'' ''/about'' [] [])
     (mk_url ''http://localhost'' ''/page'' [] [])
   = Inr (Some \<lparr> id_nav = str ''/page?'', routes_nav = [], path = str ''/page'', query = [] \<rparr>)"
proof -
  let ?r = "example_router [] Ignore"
  let ?loc = "mk_url ''http://localhost'' ''/about'' [] []"
  let ?u = "mk_url ''http://localhost'' ''/page'' [] []"
  have o: "origin ?u = origin ?loc \<and> startsWith (pathname ?u) (base ?r)"
    by (simp add: mk_url_def example_router_def startsWith_def str_def)
  have s: "base_stripped ?r ?u = str ''/page''"
    by (simp add: base_stripped_def mk_url_def example_router_def str_def)
  have d: "decodeURIComponent (str ''/page'') = Some (str ''/page'')" by code_simp
  from o s d show ?thesis
    by (simp add: parse_cases)
       (simp add: example_platform_def example_router_def mk_url_def startsWith_def str_def)
qed

lemma example_replaceState_about:
  "history_replaceState example_platform (str ''/about'')
     (example_window (mk_url ''http://localhost'' ''/about/'' [] []))
   = Inr ((example_window (mk_url ''http://localhost'' ''/about/'' [] []))
            \<lparr> location := mk_url ''http://localhost'' ''/about'' [] [],
              trace := [ReplaceState (str ''/about'')] \<rparr>)"
  by (simp add: history_replaceState_def can_have_its_URL_rewritten_def example_platform_def
        absolute_URLs_def relative_URLs_def example_window_def mk_url_def str_def)

lemma example_parse_about_slash:
  "parse example_platform (example_router [] Never)
     (mk_url ''http://localhost'' ''/about/'' [] [])
     (mk_url ''http://localhost'' ''/about/'' [] [])
   = Inr (Some \<lparr> id_nav = str ''/about/?'', routes_nav = [], path = str ''/about/'',
                  query = [] \<rparr>)"
proof -
  let ?r = "example_router [] Never"
  let ?u = "mk_url ''http://localhost'' ''/about/'' [] []"
  have o: "origin ?u = origin ?u \<and> startsWith (pathname ?u) (base ?r)"
    by (simp add: mk_url_def example_router_def startsWith_def str_def)
  have s: "base_stripped ?r ?u = str ''/about/''"
    by (simp add: base_stripped_def mk_url_def example_router_def str_def)
  have d: "decodeURIComponent (str ''/about/'') = Some (str ''/about/'')" by code_simp
  from o s d show ?thesis
    by (simp add: parse_cases)
       (simp add: example_platform_def example_router_def mk_url_def startsWith_def str_def)
qed

lemma example_navigate_start_about_slash:
  "navigate_start example_platform (example_router [] Never)
     (mk_url ''http://localhost'' ''/about/'' [] []) []
     (example_window (mk_url ''http://localhost'' ''/about/'' [] []))
   = ((example_window (mk_url ''http://localhost'' ''/about/'' [] []))
        \<lparr> location := mk_url ''http://localhost'' ''/about'' [] [],
          trace := [ReplaceState (str ''/about''),
                    Notify (str ''/about'') [],
                    Update \<lparr> id_nav = str ''/about/?'', routes_nav = [], path = str ''/about'',
                             query = [] \<rparr> [] False] \<rparr>,
      Awaiting \<lparr> id_nav = str ''/about/?'', routes_nav = [], path = str ''/about'',
                 query = [] \<rparr>)"
proof -
  let ?r = "example_router [] Never"
  let ?u = "mk_url ''http://localhost'' ''/about/'' [] []"
  let ?w = "example_window ?u"
  let ?info = "\<lparr> id_nav = str ''/about/?'', routes_nav = [], path = str ''/about/'',
                  query = [] \<rparr> :: (jsstring, unit) navigation_info"
  have ts: "trailing_slash ?r = Never" by (simp add: example_router_def)
  have p: "parse example_platform ?r (location ?w) ?u = Inr (Some ?info)"
    by (simp add: example_window_def example_parse_about_slash)
  have n: "normalized_path Never (str ''/about/'') = str ''/about''"
    using normalized_Never [of "str ''/about''"] by (simp add: str_def)
  have ch: "normalized_path (trailing_slash ?r) (path ?info) \<noteq> path ?info"
    by (simp add: ts n) (simp add: str_def)
  have arg: "normalized_path (trailing_slash ?r) (path ?info) @ search (location ?w)
              = str ''/about''"
    by (simp add: ts n example_window_def mk_url_def) (simp add: str_def)
  show ?thesis
    using navigate_start_changed [OF p ch, of "[]"]
    by (simp only: arg example_replaceState_about) (simp add: ts n)
qed

lemma example_parse_malformed:
  "parse example_platform (example_router [] Ignore)
     (mk_url ''http://localhost'' ''/page'' [] [])
     (mk_url ''http://localhost'' ''/%'' [] []) = Inl URIError"
  by (simp add: parse_cases base_stripped_def mk_url_def example_router_def startsWith_def
        str_def)

lemma example_new_URL_user:
  "new_URL example_platform (str ''http://user@localhost/about'') b = Some user_about_url"
  by (simp add: example_platform_def absolute_URLs_def str_def)

lemma user_about_url_fields:
  "href user_about_url = str ''http://user@localhost/about''"
  "origin user_about_url = str ''http://localhost''"
  "pathname user_about_url = str ''/about''"
  "username user_about_url = str ''user''"
  by (simp_all add: user_about_url_def mk_url_def)

lemma user_about_url_refused:
  "\<not> can_have_its_URL_rewritten (mk_url ''http://localhost'' p s h) user_about_url"
  by (simp add: can_have_its_URL_rewritten_def user_about_url_def mk_url_def str_def)

lemma user_about_url_owned:
  "owns (example_router [] ts) (mk_url ''http://localhost'' p s h) user_about_url"
  by (simp add: owns_def user_about_url_fields mk_url_fields example_router_def startsWith_def
        str_def)

section \<open>Ownership and parsing\<close>

text \<open>
  C1, as stated, fails: an owned URL need not parse. The pathname \<^verbatim>\<open>/%\<close> is what
  \<^verbatim>\<open>new URL('http://localhost/%')\<close> has; \<^verbatim>\<open>decodeURIComponent\<close> throws on it, and so does
  \<^verbatim>\<open>parse\<close>, which then returns neither a NavigationInfo nor \<^verbatim>\<open>undefined\<close>.
\<close>

theorem parse_owned_throws_counterexample:
  "origin (mk_url ''http://localhost'' ''/%'' [] []) = origin (mk_url ''http://localhost'' ''/page'' [] [])
   \<and> startsWith (pathname (mk_url ''http://localhost'' ''/%'' [] [])) (base (example_router [] Ignore))
   \<and> parse example_platform (example_router [] Ignore) (mk_url ''http://localhost'' ''/page'' [] [])
        (mk_url ''http://localhost'' ''/%'' [] []) = Inl URIError"
  by (simp add: parse_cases base_stripped_def mk_url_def example_router_def startsWith_def str_def)

text \<open>
  C1, amended: \<^verbatim>\<open>parse(u)\<close> returns a NavigationInfo if and only if the origin of \<open>u\<close> is
  the current origin, its pathname starts with the base, and \<^verbatim>\<open>decodeURIComponent\<close>
  accepts the base-stripped pathname; when the first two hold and the third does not,
  \<^verbatim>\<open>parse\<close> throws a URIError. For a URL of another origin \<^verbatim>\<open>owns\<close> is false and \<^verbatim>\<open>parse\<close>
  returns \<^verbatim>\<open>undefined\<close>. A pathname without \<^verbatim>\<open>%\<close> is always accepted.
\<close>

theorem parse_returns_info_iff:
  "((\<exists>info. parse pf r loc u = Inr (Some info)) \<longleftrightarrow>
      origin u = origin loc \<and> startsWith (pathname u) (base r)
      \<and> decodeURIComponent (base_stripped r u) \<noteq> None)
   \<and> (parse pf r loc u = Inl URIError \<longleftrightarrow>
      origin u = origin loc \<and> startsWith (pathname u) (base r)
      \<and> decodeURIComponent (base_stripped r u) = None)
   \<and> (origin u \<noteq> origin loc \<longrightarrow> \<not> owns r loc u \<and> parse pf r loc u = Inr None)
   \<and> (of_char CHR ''%'' \<notin> set (pathname u) \<longrightarrow> decodeURIComponent (base_stripped r u) \<noteq> None)"
proof -
  have "of_char CHR ''%'' \<notin> set (pathname u) \<longrightarrow> decodeURIComponent (base_stripped r u) \<noteq> None"
    using base_stripped_no_escape [of u r] decodeURIComponent_no_escape [of "base_stripped r u"]
    by auto
  then show ?thesis
    by (auto simp: parse_cases owns_def split: option.splits)
qed

theorem parse_returns_info_iff_witness:
  "(\<exists>info. parse example_platform (example_router ''/app'' Never)
              (mk_url ''http://localhost'' ''/app/'' [] [])
              (mk_url ''http://localhost'' ''/app/about/'' ''?x=1'' []) = Inr (Some info))
   \<and> origin (mk_url ''https://example.com'' ''/app/'' [] []) \<noteq> origin (mk_url ''http://localhost'' ''/app/'' [] [])
   \<and> \<not> owns (example_router ''/app'' Never) (mk_url ''http://localhost'' ''/app/'' [] [])
          (mk_url ''https://example.com'' ''/app/'' [] [])
   \<and> parse example_platform (example_router ''/app'' Never) (mk_url ''http://localhost'' ''/app/'' [] [])
          (mk_url ''https://example.com'' ''/app/'' [] []) = Inr None
   \<and> of_char CHR ''%'' \<notin> set (pathname (mk_url ''http://localhost'' ''/app/about/'' ''?x=1'' []))"
proof -
  let ?r = "example_router ''/app'' Never"
  let ?loc = "mk_url ''http://localhost'' ''/app/'' [] []"
  let ?u = "mk_url ''http://localhost'' ''/app/about/'' ''?x=1'' []"
  let ?v = "mk_url ''https://example.com'' ''/app/'' [] []"
  have o: "origin ?u = origin ?loc \<and> startsWith (pathname ?u) (base ?r)"
    by (simp add: mk_url_def example_router_def startsWith_def str_def)
  have e: "of_char CHR ''%'' \<notin> set (pathname ?u)"
    by (simp add: mk_url_def str_def)
  have d: "origin ?v \<noteq> origin ?loc"
    by (simp add: mk_url_def str_def)
  from o e d parse_returns_info_iff [of example_platform ?r ?loc ?u]
       parse_returns_info_iff [of example_platform ?r ?loc ?v]
  show ?thesis by auto
qed

text \<open>
  C2, as stated, fails: not every owned URL has a NavigationInfo. A link written in a
  legacy encoding, \<^verbatim>\<open>/caf%E9\<close>, is owned, and \<^verbatim>\<open>parse\<close> throws a URIError on it.
\<close>

theorem parse_legacy_escape_counterexample:
  "owns (example_router [] Ignore) (mk_url ''http://localhost'' ''/page'' [] [])
        (mk_url ''http://localhost'' ''/caf%E9'' [] [])
   \<and> parse example_platform (example_router [] Ignore) (mk_url ''http://localhost'' ''/page'' [] [])
        (mk_url ''http://localhost'' ''/caf%E9'' [] []) = Inl URIError"
proof -
  let ?r = "example_router [] Ignore"
  let ?loc = "mk_url ''http://localhost'' ''/page'' [] []"
  let ?u = "mk_url ''http://localhost'' ''/caf%E9'' [] []"
  have o: "origin ?u = origin ?loc \<and> startsWith (pathname ?u) (base ?r)"
    by (simp add: mk_url_def example_router_def startsWith_def str_def)
  have b: "base_stripped ?r ?u = str ''/caf%E9''"
    by (simp add: base_stripped_def mk_url_def example_router_def str_def)
  have "decodeURIComponent (str ''/caf%E9'') = None" by code_simp
  with b have d: "decodeURIComponent (base_stripped ?r ?u) = None" by simp
  from o d show ?thesis by (simp add: parse_cases owns_def)
qed

text \<open>
  C2, amended: for every owned URL whose base-stripped pathname (or \<^verbatim>\<open>/\<close> if that is
  empty) \<^verbatim>\<open>decodeURIComponent\<close> decodes to \<open>p\<close>, \<^verbatim>\<open>parse\<close> returns a NavigationInfo whose
  path is \<open>p\<close>, whose query is the search parameters of the URL, whose id is the path,
  a question mark and the printed query, and whose routes are those whose pattern
  matches \<open>p\<close>, in their order. The result is a function of the URL, so two calls give
  equal ids. Without \<^verbatim>\<open>%\<close> in the pathname, \<open>p\<close> is the base-stripped pathname itself.
\<close>

theorem parse_owned_path_and_id:
  assumes "origin u = origin loc" and "startsWith (pathname u) (base r)"
    and "decodeURIComponent (base_stripped r u) = Some p"
  shows "\<exists>info. parse pf r loc u = Inr (Some info)
           \<and> path info = p
           \<and> query info = URLSearchParams pf (search u)
           \<and> id_nav info = path info @ str ''?'' @ toString pf (query info)
           \<and> routes_nav info = filter (\<lambda>(pattern, _). pattern p) (routes r)
           \<and> (of_char CHR ''%'' \<notin> set (pathname u) \<longrightarrow> p = base_stripped r u)"
  using assms decodeURIComponent_no_escape [OF base_stripped_no_escape, of u r]
  by (auto simp: parse_cases)

theorem parse_owned_path_and_id_witness:
  "origin (mk_url ''http://localhost'' ''/app/a%20b'' ''?x=1'' []) = origin (mk_url ''http://localhost'' ''/app/'' [] [])
   \<and> startsWith (pathname (mk_url ''http://localhost'' ''/app/a%20b'' ''?x=1'' [])) (base (example_router ''/app'' Never))
   \<and> decodeURIComponent (base_stripped (example_router ''/app'' Never) (mk_url ''http://localhost'' ''/app/a%20b'' ''?x=1'' [])) = Some (str ''/a b'')
   \<and> (\<exists>info. parse example_platform (example_router ''/app'' Never)
              (mk_url ''http://localhost'' ''/app/'' [] [])
              (mk_url ''http://localhost'' ''/app/a%20b'' ''?x=1'' []) = Inr (Some info)
           \<and> path info = str ''/a b''
           \<and> id_nav info = str ''/a b?x=1'')"
proof -
  let ?r = "example_router ''/app'' Never"
  let ?loc = "mk_url ''http://localhost'' ''/app/'' [] []"
  let ?u = "mk_url ''http://localhost'' ''/app/a%20b'' ''?x=1'' []"
  have o: "origin ?u = origin ?loc" by (simp add: mk_url_def)
  have s: "startsWith (pathname ?u) (base ?r)"
    by (simp add: mk_url_def example_router_def startsWith_def str_def)
  have b: "base_stripped ?r ?u = str ''/a%20b''"
    by (simp add: base_stripped_def mk_url_def example_router_def str_def)
  have "decodeURIComponent (str ''/a%20b'') = Some (str ''/a b'')" by code_simp
  with b have d: "decodeURIComponent (base_stripped ?r ?u) = Some (str ''/a b'')" by simp
  from parse_owned_path_and_id [OF o s d, of example_platform]
  obtain info where i: "parse example_platform ?r ?loc ?u = Inr (Some info)"
    "path info = str ''/a b''" "query info = URLSearchParams example_platform (search ?u)"
    "id_nav info = path info @ str ''?'' @ toString example_platform (query info)"
    by blast
  then have "id_nav info = str ''/a b?x=1''"
    by (simp add: example_platform_def mk_url_def startsWith_def slice_from_def str_def)
  with o s d i show ?thesis by blast
qed

section \<open>The trailing-slash policy\<close>

text \<open>
  C3: the trailing-slash step of \<^verbatim>\<open>_navigate\<close> follows the policy. Under \<open>Never\<close> a path
  \<open>q/\<close> other than the root becomes \<open>q\<close>; under \<open>Always\<close> a path other than the root
  without a trailing slash gets one, unless its final segment contains a dot, in which
  case it is left as it is; under \<open>Ignore\<close> every path is left as it is; the root path is
  left as it is under every policy. The path so normalized is the path of the
  NavigationInfo with which \<^verbatim>\<open>_navigate\<close> calls the Renderer.
\<close>

theorem trailing_slash_policy:
  "(\<forall>q. q \<noteq> [] \<longrightarrow> normalized_path Never (q @ str ''/'') = q)
   \<and> (\<forall>p. p \<noteq> str ''/'' \<and> \<not> has_trailing_slash p
            \<and> of_char CHR ''.'' \<notin> set (final_segment p)
          \<longrightarrow> normalized_path Always p = p @ str ''/'')
   \<and> (\<forall>p. \<not> has_trailing_slash p \<and> of_char CHR ''.'' \<in> set (final_segment p)
          \<longrightarrow> normalized_path Always p = p)
   \<and> (\<forall>p. normalized_path Ignore p = p)
   \<and> (\<forall>ts. normalized_path ts (str ''/'') = str ''/'')
   \<and> normalized_path Never (str ''/about/'') = str ''/about''
   \<and> normalized_path Always (str ''/about'') = str ''/about/''
   \<and> normalized_path Always (str ''/file.json'') = str ''/file.json''
   \<and> (\<forall>w' info'. parse pf r (location w) url = Inr (Some info)
          \<and> navigate_start pf r url chain w = (w', Awaiting info')
          \<longrightarrow> path info' = normalized_path (trailing_slash r) (path info))"
proof -
  have never: "\<forall>q. q \<noteq> [] \<longrightarrow> normalized_path Never (q @ str ''/'') = q"
    by (simp add: normalized_Never)
  have always_add: "\<forall>p. p \<noteq> str ''/'' \<and> \<not> has_trailing_slash p
            \<and> of_char CHR ''.'' \<notin> set (final_segment p)
          \<longrightarrow> normalized_path Always p = p @ str ''/''"
    unfolding normalized_path_def incorrect_def corrected_path_def includes_unit_def
      pop_split_final_segment
    by simp
  have always_file: "\<forall>p. \<not> has_trailing_slash p \<and> of_char CHR ''.'' \<in> set (final_segment p)
          \<longrightarrow> normalized_path Always p = p"
    unfolding normalized_path_def incorrect_def includes_unit_def pop_split_final_segment
    by simp
  have ignore: "\<forall>p. normalized_path Ignore p = p"
    by (simp add: normalized_Ignore)
  have root: "\<forall>ts. normalized_path ts (str ''/'') = str ''/''"
    by (simp add: normalized_path_def)
  have e1: "normalized_path Never (str ''/about/'') = str ''/about''"
    using normalized_Never [of "str ''/about''"] by (simp add: str_def)
  have ts_about: "\<not> has_trailing_slash (str ''/about'')"
    by (simp add: has_trailing_slash_iff str_def)
  have seg_about: "final_segment (str ''/about'') = str ''about''"
    by (simp add: final_segment_def str_def)
  have e2: "normalized_path Always (str ''/about'') = str ''/about/''"
    using always_add [rule_format, of "str ''/about''"] ts_about seg_about
    by (simp add: str_def)
  have ts_file: "\<not> has_trailing_slash (str ''/file.json'')"
    by (simp add: has_trailing_slash_iff str_def)
  have seg_file: "final_segment (str ''/file.json'') = str ''file.json''"
    by (simp add: final_segment_def str_def)
  have e3: "normalized_path Always (str ''/file.json'') = str ''/file.json''"
    using always_file [rule_format, of "str ''/file.json''"] ts_file seg_file
    by (simp add: str_def)
  have nav: "\<forall>w' info'. parse pf r (location w) url = Inr (Some info)
          \<and> navigate_start pf r url chain w = (w', Awaiting info')
          \<longrightarrow> path info' = normalized_path (trailing_slash r) (path info)"
    using navigate_start_path by blast
  from never always_add always_file ignore root e1 e2 e3 nav show ?thesis by blast
qed

theorem trailing_slash_policy_witness:
  "(str ''/blog'' \<noteq> [] \<and> normalized_path Never (str ''/blog'' @ str ''/'') = str ''/blog'')
   \<and> (str ''/docs'' \<noteq> str ''/'' \<and> \<not> has_trailing_slash (str ''/docs'')
        \<and> of_char CHR ''.'' \<notin> set (final_segment (str ''/docs''))
        \<and> normalized_path Always (str ''/docs'') = str ''/docs'' @ str ''/'')
   \<and> (\<not> has_trailing_slash (str ''/a/feed.xml'')
        \<and> of_char CHR ''.'' \<in> set (final_segment (str ''/a/feed.xml''))
        \<and> normalized_path Always (str ''/a/feed.xml'') = str ''/a/feed.xml'')
   \<and> (parse example_platform (example_router [] Never)
          (location (example_window (mk_url ''http://localhost'' ''/about/'' [] [])))
          (mk_url ''http://localhost'' ''/about/'' [] [])
        = Inr (Some \<lparr> id_nav = str ''/about/?'', routes_nav = [], path = str ''/about/'',
                       query = [] \<rparr>)
      \<and> snd (navigate_start example_platform (example_router [] Never)
               (mk_url ''http://localhost'' ''/about/'' [] []) []
               (example_window (mk_url ''http://localhost'' ''/about/'' [] [])))
        = Awaiting \<lparr> id_nav = str ''/about/?'', routes_nav = [], path = str ''/about'',
                      query = [] \<rparr>
      \<and> str ''/about''
        = normalized_path (trailing_slash (example_router [] Never)) (str ''/about/''))"
proof -
  let ?r = "example_router [] Never"
  let ?u = "mk_url ''http://localhost'' ''/about/'' [] []"
  let ?w = "example_window ?u"
  let ?info = "\<lparr> id_nav = str ''/about/?'', routes_nav = [], path = str ''/about/'',
                  query = [] \<rparr> :: (jsstring, unit) navigation_info"
  let ?info' = "\<lparr> id_nav = str ''/about/?'', routes_nav = [], path = str ''/about'',
                  query = [] \<rparr> :: (jsstring, unit) navigation_info"
  let ?w' = "?w\<lparr> location := mk_url ''http://localhost'' ''/about'' [] [],
          trace := [ReplaceState (str ''/about''),
                    Notify (str ''/about'') [],
                    Update ?info' [] False] \<rparr>"
  have h1: "str ''/blog'' \<noteq> []" by (simp add: str_def)
  have h2: "str ''/docs'' \<noteq> str ''/'' \<and> \<not> has_trailing_slash (str ''/docs'')
        \<and> of_char CHR ''.'' \<notin> set (final_segment (str ''/docs''))"
    by (simp add: has_trailing_slash_iff final_segment_def str_def)
  have h3: "\<not> has_trailing_slash (str ''/a/feed.xml'')
        \<and> of_char CHR ''.'' \<in> set (final_segment (str ''/a/feed.xml''))"
    by (simp add: has_trailing_slash_iff final_segment_def str_def)
  have h4: "parse example_platform ?r (location ?w) ?u = Inr (Some ?info)"
    by (simp add: example_window_def example_parse_about_slash)
  have h5: "navigate_start example_platform ?r ?u [] ?w = (?w', Awaiting ?info')"
    by (rule example_navigate_start_about_slash)
  note t = trailing_slash_policy [where pf = example_platform and r = ?r and w = ?w
             and url = ?u and info = ?info and chain = "[]"]
  have c1: "normalized_path Never (str ''/blog'' @ str ''/'') = str ''/blog''"
    using t h1 by blast
  have c2: "normalized_path Always (str ''/docs'') = str ''/docs'' @ str ''/''"
    using t h2 by blast
  have c3: "normalized_path Always (str ''/a/feed.xml'') = str ''/a/feed.xml''"
    using t h3 by blast
  have "path ?info' = normalized_path (trailing_slash ?r) (path ?info)"
    using t h4 h5 by blast
  then have c4: "str ''/about'' = normalized_path (trailing_slash ?r) (str ''/about/'')"
    by simp
  from h1 h2 h3 h4 h5 c1 c2 c3 c4 show ?thesis by simp
qed

text \<open>
  C9, as stated, fails: the output of a normalization need not be canonical. Under
  \<open>Never\<close> the path \<^verbatim>\<open>/about//\<close> becomes \<^verbatim>\<open>/about/\<close>, which a second normalization changes
  again.
\<close>

theorem normalization_twice_counterexample:
  "normalized_path Never (normalized_path Never (str ''/about//''))
     \<noteq> normalized_path Never (str ''/about//'')"
proof -
  have "endsWith (str ''/about//'') (str ''//'') \<and> str ''/about//'' \<noteq> str ''//''"
    by (simp add: endsWith_def str_def)
  then show ?thesis using normalized_Never_idem_iff [of "str ''/about//''"] by blast
qed

text \<open>
  C9, amended: the normalization leaves unchanged every path that is canonical under
  the policy. Its output is canonical, and normalizing twice is the same as normalizing
  once, for every path under \<open>Always\<close> and \<open>Ignore\<close> and, under \<open>Never\<close>, exactly for the
  paths that do not end in two slashes (\<^verbatim>\<open>//\<close> itself apart): one step strips one slash.
\<close>

theorem normalization_idempotent_on_canonical:
  "(canonical ts p \<longrightarrow> normalized_path ts p = p)
   \<and> (canonical ts (normalized_path ts p)
        \<longleftrightarrow> \<not> (ts = Never \<and> endsWith p (str ''//'') \<and> p \<noteq> str ''//''))
   \<and> (normalized_path ts (normalized_path ts p) = normalized_path ts p
        \<longleftrightarrow> \<not> (ts = Never \<and> endsWith p (str ''//'') \<and> p \<noteq> str ''//''))"
proof -
  have idem: "normalized_path ts (normalized_path ts p) = normalized_path ts p
        \<longleftrightarrow> \<not> (ts = Never \<and> endsWith p (str ''//'') \<and> p \<noteq> str ''//'')"
  proof (cases ts)
    case Never
    then show ?thesis using normalized_Never_idem_iff [of p] by simp
  next
    case Always
    then show ?thesis using normalized_Always_idem [of p] by simp
  next
    case Ignore
    then show ?thesis by (simp add: normalized_Ignore)
  qed
  moreover have "canonical ts p \<longrightarrow> normalized_path ts p = p"
    by (simp add: canonical_iff_fixed)
  ultimately show ?thesis by (simp add: canonical_iff_fixed)
qed

theorem normalization_idempotent_on_canonical_witness:
  "canonical Always (str ''/about/'')
   \<and> normalized_path Always (str ''/about/'') = str ''/about/''
   \<and> \<not> (Always = Never \<and> endsWith (str ''/about'') (str ''//'') \<and> str ''/about'' \<noteq> str ''//'')
   \<and> canonical Always (normalized_path Always (str ''/about''))
   \<and> normalized_path Always (normalized_path Always (str ''/about''))
       = normalized_path Always (str ''/about'')"
proof -
  have h: "canonical Always (str ''/about/'')"
    by (simp add: canonical_def has_trailing_slash_iff str_def)
  from h normalization_idempotent_on_canonical [of Always "str ''/about/''"]
       normalization_idempotent_on_canonical [of Always "str ''/about''"]
  show ?thesis by simp
qed

section \<open>Errors of prefetch and _navigate\<close>

text \<open>
  C6, as stated, fails: \<^verbatim>\<open>_navigate\<close> and \<^verbatim>\<open>prefetch\<close> also throw when \<^verbatim>\<open>parse\<close> is not absent.
  For the owned URL with pathname \<^verbatim>\<open>/%\<close> the URIError of \<^verbatim>\<open>parse\<close> rejects both promises.
\<close>

theorem navigate_throws_on_owned_counterexample:
  "owns (example_router [] Ignore) (mk_url ''http://localhost'' ''/page'' [] [])
        (mk_url ''http://localhost'' ''/%'' [] [])
   \<and> parse example_platform (example_router [] Ignore)
         (location (example_window (mk_url ''http://localhost'' ''/page'' [] [])))
         (mk_url ''http://localhost'' ''/%'' [] []) \<noteq> Inr None
   \<and> snd (navigate example_platform example_renderer (example_router [] Ignore)
              (mk_url ''http://localhost'' ''/%'' [] []) None [] None
              (example_window (mk_url ''http://localhost'' ''/page'' [] []))) = Rejected URIError
   \<and> snd (prefetch example_platform example_renderer (example_router [] Ignore)
              (mk_url ''http://localhost'' ''/%'' [] [])
              (example_window (mk_url ''http://localhost'' ''/page'' [] []))) = Rejected URIError"
proof -
  let ?r = "example_router [] Ignore"
  let ?loc = "mk_url ''http://localhost'' ''/page'' [] []"
  let ?u = "mk_url ''http://localhost'' ''/%'' [] []"
  have l: "location (example_window ?loc) = ?loc" by (simp add: example_window_def)
  have o: "owns ?r ?loc ?u"
    by (simp add: owns_def mk_url_def example_router_def startsWith_def str_def)
  have p: "parse example_platform ?r ?loc ?u = Inl URIError"
    by (simp add: parse_cases base_stripped_def mk_url_def example_router_def startsWith_def
          str_def)
  from o p l show ?thesis
    by (simp add: navigate_def navigate_start_throws navigate_resume_Threw prefetch_def)
qed

text \<open>
  C6, amended: \<^verbatim>\<open>_navigate\<close> and \<^verbatim>\<open>prefetch\<close> each throw their ownership error if and only if
  \<^verbatim>\<open>parse(url)\<close> is absent, which is the case exactly when the URL is not owned; for an
  owned URL neither throws an ownership error. When \<^verbatim>\<open>parse\<close> returns a NavigationInfo,
  \<^verbatim>\<open>prefetch\<close> does nothing but call the Renderer's \<^verbatim>\<open>load\<close> with it and settles as that call
  does. When \<^verbatim>\<open>parse\<close> throws, both do nothing and reject with what it has thrown.
\<close>

theorem ownership_error_iff_absent:
  "(snd (navigate pf rd r url scroll chain h w) = Rejected navigate_error
      \<longleftrightarrow> parse pf r (location w) url = Inr None)
   \<and> (snd (prefetch pf rd r url w) = Rejected prefetch_error
      \<longleftrightarrow> parse pf r (location w) url = Inr None)
   \<and> (parse pf r (location w) url = Inr None \<longleftrightarrow> \<not> owns r (location w) url)
   \<and> (\<forall>info. parse pf r (location w) url = Inr (Some info) \<longrightarrow>
         prefetch pf rd r url w =
           (w\<lparr> trace := trace w @ [Load info] \<rparr>,
            case load rd info of
              Inl reason \<Rightarrow> Rejected (RendererError reason)
            | Inr v \<Rightarrow> Fulfilled v))
   \<and> (\<forall>e. parse pf r (location w) url = Inl e \<longrightarrow>
         navigate pf rd r url scroll chain h w = (w, Rejected e)
         \<and> prefetch pf rd r url w = (w, Rejected e))"
proof -
  have "\<forall>e. parse pf r (location w) url = Inl e \<longrightarrow>
         navigate pf rd r url scroll chain h w = (w, Rejected e)
         \<and> prefetch pf rd r url w = (w, Rejected e)"
    by (simp add: navigate_def navigate_start_throws navigate_resume_Threw prefetch_def)
  moreover
  have "parse pf r (location w) url = Inr None \<longleftrightarrow> \<not> owns r (location w) url"
    by (auto simp: parse_cases owns_def split: option.splits)
  moreover have "\<forall>info. parse pf r (location w) url = Inr (Some info) \<longrightarrow>
         prefetch pf rd r url w =
           (w\<lparr> trace := trace w @ [Load info] \<rparr>,
            case load rd info of
              Inl reason \<Rightarrow> Rejected (RendererError reason)
            | Inr v \<Rightarrow> Fulfilled v)"
    by (simp add: prefetch_def)
  ultimately show ?thesis
    using navigate_ownership_error_iff [of pf rd r url scroll chain h w]
      prefetch_ownership_error_iff [of pf rd r url w]
    by blast
qed

theorem ownership_error_iff_absent_witness:
  "parse example_platform (example_router ''/app'' Never)
      (location (example_window (mk_url ''http://localhost'' ''/app/'' [] [])))
      (mk_url ''http://localhost'' ''/about'' [] []) = Inr None
   \<and> snd (navigate example_platform example_renderer (example_router ''/app'' Never)
            (mk_url ''http://localhost'' ''/about'' [] []) None [] None
            (example_window (mk_url ''http://localhost'' ''/app/'' [] []))) = Rejected navigate_error
   \<and> snd (prefetch example_platform example_renderer (example_router ''/app'' Never)
            (mk_url ''http://localhost'' ''/about'' [] [])
            (example_window (mk_url ''http://localhost'' ''/app/'' [] []))) = Rejected prefetch_error
   \<and> (\<exists>info. parse example_platform (example_router [] Never)
                 (location (example_window (mk_url ''http://localhost'' ''/page'' [] [])))
                 (mk_url ''http://localhost'' ''/about'' [] []) = Inr (Some info)
         \<and> prefetch example_platform example_renderer (example_router [] Never)
              (mk_url ''http://localhost'' ''/about'' [] [])
              (example_window (mk_url ''http://localhost'' ''/page'' [] []))
            = ((example_window (mk_url ''http://localhost'' ''/page'' [] []))
                 \<lparr> trace := trace (example_window (mk_url ''http://localhost'' ''/page'' [] []))
                             @ [Load info] \<rparr>,
               Fulfilled ()))
   \<and> parse example_platform (example_router [] Ignore)
        (location (example_window (mk_url ''http://localhost'' ''/page'' [] [])))
        (mk_url ''http://localhost'' ''/%'' [] []) = Inl URIError
   \<and> prefetch example_platform example_renderer (example_router [] Ignore)
        (mk_url ''http://localhost'' ''/%'' [] [])
        (example_window (mk_url ''http://localhost'' ''/page'' [] []))
      = (example_window (mk_url ''http://localhost'' ''/page'' [] []), Rejected URIError)"
proof -
  let ?r = "example_router ''/app'' Never"
  let ?w = "example_window (mk_url ''http://localhost'' ''/app/'' [] [])"
  let ?u = "mk_url ''http://localhost'' ''/about'' [] []"
  let ?r2 = "example_router [] Never"
  let ?w2 = "example_window (mk_url ''http://localhost'' ''/page'' [] [])"
  let ?r3 = "example_router [] Ignore"
  let ?m = "mk_url ''http://localhost'' ''/%'' [] []"
  have a: "parse example_platform ?r (location ?w) ?u = Inr None"
    by (simp add: parse_cases example_window_def mk_url_def example_router_def startsWith_def
          str_def)
  have o: "origin ?u = origin (location ?w2) \<and> startsWith (pathname ?u) (base ?r2)"
    by (simp add: example_window_def mk_url_def example_router_def startsWith_def str_def)
  have s: "base_stripped ?r2 ?u = str ''/about''"
    by (simp add: base_stripped_def mk_url_def example_router_def str_def)
  have "decodeURIComponent (str ''/about'') = Some (str ''/about'')" by code_simp
  with o s obtain info where b: "parse example_platform ?r2 (location ?w2) ?u = Inr (Some info)"
    by (simp add: parse_cases)
  have l: "load example_renderer info = Inr ()" by (simp add: example_renderer_def)
  have c: "parse example_platform ?r3 (location ?w2) ?m = Inl URIError"
    by (simp add: example_window_def example_parse_malformed)
  from a b l c
    ownership_error_iff_absent [of example_platform example_renderer ?r ?u None "[]" None ?w]
    ownership_error_iff_absent [of example_platform example_renderer ?r2 ?u None "[]" None ?w2]
    ownership_error_iff_absent [of example_platform example_renderer ?r3 ?m None "[]" None ?w2]
  show ?thesis by auto
qed

section \<open>What _navigate passes on and writes to the history\<close>

text \<open>
  C10: when the trailing-slash step rewrites \<^verbatim>\<open>info.path\<close>, the NavigationInfo passed to
  the Renderer's \<^verbatim>\<open>update\<close> has the normalized path and otherwise the fields that \<^verbatim>\<open>parse\<close>
  gave it: its id is still the path before normalization, a question mark and the
  printed query, not the same with the normalized path; its routes are still those
  matched against the path before normalization; its query is unchanged.
\<close>

theorem normalization_keeps_id_and_routes:
  assumes "parse pf r (location w) url = Inr (Some info)"
    and "normalized_path (trailing_slash r) (path info) \<noteq> path info"
    and "history_replaceState pf
           (normalized_path (trailing_slash r) (path info) @ search (location w)) w = Inr w1"
  shows "\<exists>info'.
           navigate_start pf r url chain w =
             (w1\<lparr> trace := trace w1 @ [Notify (path info') (query info'),
                                         Update info' chain False] \<rparr>,
              Awaiting info')
           \<and> path info' = normalized_path (trailing_slash r) (path info)
           \<and> id_nav info' = id_nav info
           \<and> id_nav info' = path info @ str ''?'' @ toString pf (query info)
           \<and> id_nav info' \<noteq> path info' @ str ''?'' @ toString pf (query info')
           \<and> routes_nav info' = routes_nav info
           \<and> routes_nav info' = filter (\<lambda>(pattern, _). pattern (path info)) (routes r)
           \<and> query info' = query info"
proof -
  let ?info' = "info\<lparr> path := normalized_path (trailing_slash r) (path info) \<rparr>"
  have start: "navigate_start pf r url chain w =
      (w1\<lparr> trace := trace w1 @ [Notify (path ?info') (query ?info'), Update ?info' chain False] \<rparr>,
       Awaiting ?info')"
    using navigate_start_changed [OF assms(1) assms(2), of chain] assms(3) by simp
  have i: "id_nav info = path info @ str ''?'' @ toString pf (query info)"
    using assms(1) by (rule parse_Some_fields)
  have rts: "routes_nav info = filter (\<lambda>(pattern, _). pattern (path info)) (routes r)"
    using assms(1) by (rule parse_Some_fields)
  from assms(2) i have "id_nav ?info' \<noteq> path ?info' @ str ''?'' @ toString pf (query ?info')"
    by simp
  with start i rts show ?thesis
    by (intro exI [of _ ?info']) simp
qed

theorem normalization_keeps_id_and_routes_witness:
  "(\<exists>info. parse example_platform (example_router [] Never)
              (location (example_window (mk_url ''http://localhost'' ''/about/'' [] [])))
              (mk_url ''http://localhost'' ''/about/'' [] []) = Inr (Some info)
       \<and> path info = str ''/about/''
       \<and> normalized_path Never (path info) \<noteq> path info
       \<and> (\<exists>info'. snd (navigate_start example_platform (example_router [] Never)
                      (mk_url ''http://localhost'' ''/about/'' [] []) []
                      (example_window (mk_url ''http://localhost'' ''/about/'' [] [])))
                  = Awaiting info'
              \<and> path info' = str ''/about''
              \<and> id_nav info' = str ''/about/?''
              \<and> routes_nav info' = []))"
proof -
  let ?r = "example_router [] Never"
  let ?u = "mk_url ''http://localhost'' ''/about/'' [] []"
  let ?w = "example_window ?u"
  have ts: "trailing_slash ?r = Never" by (simp add: example_router_def)
  have o: "origin ?u = origin (location ?w) \<and> startsWith (pathname ?u) (base ?r)"
    by (simp add: example_window_def mk_url_def example_router_def startsWith_def str_def)
  have s: "base_stripped ?r ?u = str ''/about/''"
    by (simp add: base_stripped_def mk_url_def example_router_def str_def)
  have d: "decodeURIComponent (str ''/about/'') = Some (str ''/about/'')" by code_simp
  from o s d obtain info where p: "parse example_platform ?r (location ?w) ?u = Inr (Some info)"
    and pi: "path info = str ''/about/''"
    by (simp add: parse_cases)
  have n: "normalized_path Never (str ''/about/'') = str ''/about''"
    using normalized_Never [of "str ''/about''"] by (simp add: str_def)
  then have ch: "normalized_path (trailing_slash ?r) (path info) \<noteq> path info"
    by (simp add: ts pi str_def)
  have se: "search (location ?w) = []"
    by (simp add: example_window_def mk_url_def str_def)
  have rs: "history_replaceState example_platform
              (normalized_path (trailing_slash ?r) (path info) @ search (location ?w)) ?w
            = Inr (?w\<lparr> location := mk_url ''http://localhost'' ''/about'' [] [],
                        trace := [ReplaceState (str ''/about'')] \<rparr>)"
    by (simp add: ts pi n se example_replaceState_about)
  from normalization_keeps_id_and_routes [OF p ch rs, of "[]"]
  obtain info' where st: "snd (navigate_start example_platform ?r ?u [] ?w) = Awaiting info'"
    and f1: "path info' = normalized_path (trailing_slash ?r) (path info)"
    and f2: "id_nav info' = path info @ str ''?'' @ toString example_platform (query info)"
    and f3: "routes_nav info' = filter (\<lambda>(pattern, _). pattern (path info)) (routes ?r)"
    by auto
  have q: "query info = []"
    using parse_Some_fields(3) [OF p] by (simp add: example_platform_def mk_url_def str_def)
  have g1: "path info' = str ''/about''" using f1 by (simp add: ts pi n)
  have g2: "id_nav info' = str ''/about/?''"
    using f2 by (simp add: pi q example_platform_def startsWith_def str_def)
  have g3: "routes_nav info' = []"
    using f3 by (simp add: pi example_router_def str_def)
  from p pi ch ts st g1 g2 g3 show ?thesis by auto
qed

text \<open>
  C4 fails for an app with a base path. With base \<^verbatim>\<open>/app\<close> and the policy \<open>Never\<close>, navigating
  to \<^verbatim>\<open>http://localhost/app/about/?x=1\<close> replaces the current history entry, keeping the
  query, but with the URL \<^verbatim>\<open>/about?x=1\<close>: the base is missing, and the address bar shows
  \<^verbatim>\<open>http://localhost/about?x=1\<close>, a URL the app does not own, instead of the canonical
  \<^verbatim>\<open>http://localhost/app/about?x=1\<close>.
\<close>

theorem navigate_rewrites_address_without_base:
  "owns (example_router ''/app'' Never)
        (mk_url ''http://localhost'' ''/app/about/'' ''?x=1'' [])
        (mk_url ''http://localhost'' ''/app/about/'' ''?x=1'' [])
   \<and> trace (fst (navigate_start example_platform (example_router ''/app'' Never)
                    (mk_url ''http://localhost'' ''/app/about/'' ''?x=1'' []) []
                    (example_window (mk_url ''http://localhost'' ''/app/about/'' ''?x=1'' []))))
       = [ReplaceState (str ''/about?x=1''),
          Notify (str ''/about'') (str ''?x=1''),
          Update \<lparr> id_nav = str ''/about/?x=1'', routes_nav = [], path = str ''/about'',
                   query = str ''?x=1'' \<rparr> [] False]
   \<and> location (fst (navigate_start example_platform (example_router ''/app'' Never)
                    (mk_url ''http://localhost'' ''/app/about/'' ''?x=1'' []) []
                    (example_window (mk_url ''http://localhost'' ''/app/about/'' ''?x=1'' []))))
       = mk_url ''http://localhost'' ''/about'' ''?x=1'' []
   \<and> \<not> owns (example_router ''/app'' Never)
        (mk_url ''http://localhost'' ''/app/about/'' ''?x=1'' [])
        (mk_url ''http://localhost'' ''/about'' ''?x=1'' [])"
proof -
  let ?r = "example_router ''/app'' Never"
  let ?u = "mk_url ''http://localhost'' ''/app/about/'' ''?x=1'' []"
  let ?w = "example_window ?u"
  let ?info = "\<lparr> id_nav = str ''/about/?x=1'', routes_nav = [], path = str ''/about/'',
                  query = str ''?x=1'' \<rparr> :: (jsstring, unit) navigation_info"
  have ts: "trailing_slash ?r = Never" by (simp add: example_router_def)
  have o: "origin ?u = origin (location ?w) \<and> startsWith (pathname ?u) (base ?r)"
    by (simp add: example_window_def mk_url_def example_router_def startsWith_def str_def)
  have s: "base_stripped ?r ?u = str ''/about/''"
    by (simp add: base_stripped_def mk_url_def example_router_def str_def)
  have d: "decodeURIComponent (str ''/about/'') = Some (str ''/about/'')" by code_simp
  have p: "parse example_platform ?r (location ?w) ?u = Inr (Some ?info)"
    using o s d
    by (simp add: parse_cases)
       (simp add: example_platform_def example_router_def mk_url_def startsWith_def
          slice_from_def str_def)
  have n: "normalized_path Never (str ''/about/'') = str ''/about''"
    using normalized_Never [of "str ''/about''"] by (simp add: str_def)
  have ch: "normalized_path (trailing_slash ?r) (path ?info) \<noteq> path ?info"
    by (simp add: ts n) (simp add: str_def)
  have rs: "history_replaceState example_platform (str ''/about?x=1'') ?w
            = Inr (?w\<lparr> location := mk_url ''http://localhost'' ''/about'' ''?x=1'' [],
                        trace := [ReplaceState (str ''/about?x=1'')] \<rparr>)"
    by (simp add: history_replaceState_def can_have_its_URL_rewritten_def
          example_platform_def absolute_URLs_def relative_URLs_def example_window_def
          mk_url_def str_def)
  have arg: "normalized_path (trailing_slash ?r) (path ?info) @ search (location ?w)
              = str ''/about?x=1''"
    by (simp add: ts n example_window_def mk_url_def) (simp add: str_def)
  have st: "navigate_start example_platform ?r ?u [] ?w =
      (?w\<lparr> location := mk_url ''http://localhost'' ''/about'' ''?x=1'' [],
            trace := [ReplaceState (str ''/about?x=1''),
                      Notify (str ''/about'') (str ''?x=1''),
                      Update (?info\<lparr> path := str ''/about'' \<rparr>) [] False] \<rparr>,
       Awaiting (?info\<lparr> path := str ''/about'' \<rparr>))"
    using navigate_start_changed [OF p ch, of "[]"]
    by (simp only: arg rs) (simp add: ts n)
  have no: "\<not> owns ?r ?u (mk_url ''http://localhost'' ''/about'' ''?x=1'' [])"
    by (simp add: owns_def mk_url_def example_router_def startsWith_def str_def)
  from o st no show ?thesis
    by (simp add: owns_def example_window_def)
qed

section \<open>Programmatic navigation\<close>

text \<open>
  C7, as stated, fails: the history can refuse a URL that the router owns. At
  \<^verbatim>\<open>http://localhost/page\<close> the URL \<^verbatim>\<open>http://user@localhost/about\<close> has the origin of the
  document, so the enabled router owns it; \<^verbatim>\<open>history.pushState\<close> throws a SecurityError
  because of the user name, and \<^verbatim>\<open>goto\<close> rejects without calling \<^verbatim>\<open>_navigate\<close>.
\<close>

theorem goto_refused_by_history_counterexample:
  "new_URL example_platform (str ''http://user@localhost/about'')
       (Some (baseURI (example_window (mk_url ''http://localhost'' ''/page'' [] []))))
     = Some user_about_url
   \<and> enabled (example_router [] Ignore)
   \<and> owns (example_router [] Ignore)
        (location (example_window (mk_url ''http://localhost'' ''/page'' [] [])))
        user_about_url
   \<and> goto example_platform example_renderer (example_router [] Ignore)
        (str ''http://user@localhost/about'') False False []
        (example_window (mk_url ''http://localhost'' ''/page'' [] []))
     = (example_window (mk_url ''http://localhost'' ''/page'' [] []), Rejected SecurityError)"
proof -
  let ?r = "example_router [] Ignore"
  let ?w = "example_window (mk_url ''http://localhost'' ''/page'' [] [])"
  have l: "location ?w = mk_url ''http://localhost'' ''/page'' [] []"
    by (simp add: example_window_def)
  have n: "new_URL example_platform (str ''http://user@localhost/about'') (Some (baseURI ?w))
            = Some user_about_url"
    by (rule example_new_URL_user)
  have e: "enabled ?r" by (simp add: example_router_def)
  have o: "owns ?r (location ?w) user_about_url"
    by (simp add: l user_about_url_owned)
  have "\<not> can_have_its_URL_rewritten (location ?w) user_about_url"
    by (simp add: l user_about_url_refused)
  with n have p: "history_pushState example_platform (str ''http://user@localhost/about'') ?w
                   = Inl SecurityError"
    by (rule history_refuses)
  have "goto example_platform example_renderer ?r (str ''http://user@localhost/about'')
          False False [] ?w = (?w, Rejected SecurityError)"
    unfolding goto_def using n e o p by simp
  with n e o show ?thesis by simp
qed

text \<open>
  C7, amended: let \<^verbatim>\<open>goto\<close> resolve its argument to a URL. If the router is enabled and owns
  the URL, \<^verbatim>\<open>goto\<close> calls \<^verbatim>\<open>history.replaceState\<close> when the option \<^verbatim>\<open>replaceState\<close> is set and
  \<^verbatim>\<open>history.pushState\<close> otherwise. If the browser lets the document's URL be rewritten to
  the URL, that call is the first thing \<^verbatim>\<open>goto\<close> does, and \<^verbatim>\<open>goto\<close> then is \<^verbatim>\<open>_navigate\<close> on
  the URL, with its hash; if the browser refuses, \<^verbatim>\<open>goto\<close> rejects with the SecurityError
  and does nothing else. If the router is disabled or does not own the URL, \<^verbatim>\<open>goto\<close>
  assigns the URL to \<^verbatim>\<open>location.href\<close>, does nothing else, and returns a promise that never
  settles.
\<close>

theorem goto_owned_or_hard_navigation:
  assumes "new_URL pf href_arg (Some (baseURI w)) = Some url"
  shows "(enabled r \<and> owns r (location w) url \<and> can_have_its_URL_rewritten (location w) url
          \<longrightarrow>
            goto pf rd r href_arg noscroll replaceState chain w =
              navigate pf rd r url (if noscroll then Some (scroll_state w) else None) chain
                (Some (hash url))
                (w\<lparr> location := url,
                    trace := trace w @ [if replaceState then ReplaceState href_arg
                                        else PushState href_arg] \<rparr>)
            \<and> (\<exists>es. trace (fst (goto pf rd r href_arg noscroll replaceState chain w)) =
                   trace w @ [if replaceState then ReplaceState href_arg
                              else PushState href_arg] @ es))
       \<and> (enabled r \<and> owns r (location w) url
            \<and> \<not> can_have_its_URL_rewritten (location w) url
          \<longrightarrow> goto pf rd r href_arg noscroll replaceState chain w = (w, Rejected SecurityError))
       \<and> (\<not> (enabled r \<and> owns r (location w) url) \<longrightarrow>
            goto pf rd r href_arg noscroll replaceState chain w =
              (w\<lparr> trace := trace w @ [SetLocationHref (href url)] \<rparr>, Never_settles))"
proof (intro conjI impI)
  assume own: "enabled r \<and> owns r (location w) url
                \<and> can_have_its_URL_rewritten (location w) url"
  let ?w' = "w\<lparr> location := url,
                 trace := trace w @ [if replaceState then ReplaceState href_arg
                                     else PushState href_arg] \<rparr>"
  from own have rw: "can_have_its_URL_rewritten (location w) url" by simp
  have h: "(if replaceState then history_replaceState pf href_arg w
            else history_pushState pf href_arg w) = Inr ?w'"
    using history_accepts [OF assms rw] by simp
  have sc: "scroll_state ?w' = scroll_state w" by (simp add: scroll_state_def)
  show g: "goto pf rd r href_arg noscroll replaceState chain w =
          navigate pf rd r url (if noscroll then Some (scroll_state w) else None) chain
            (Some (hash url)) ?w'"
    unfolding goto_def using assms own h sc by simp
  from navigate_trace [of pf rd r url "if noscroll then Some (scroll_state w) else None" chain
         "Some (hash url)" ?w']
  show "\<exists>es. trace (fst (goto pf rd r href_arg noscroll replaceState chain w)) =
          trace w @ [if replaceState then ReplaceState href_arg else PushState href_arg] @ es"
    unfolding g by simp
next
  assume ref: "enabled r \<and> owns r (location w) url
                \<and> \<not> can_have_its_URL_rewritten (location w) url"
  then have rw: "\<not> can_have_its_URL_rewritten (location w) url" by simp
  have h: "(if replaceState then history_replaceState pf href_arg w
            else history_pushState pf href_arg w) = Inl SecurityError"
    using history_refuses [OF assms rw] by simp
  show "goto pf rd r href_arg noscroll replaceState chain w = (w, Rejected SecurityError)"
    unfolding goto_def using assms ref h by simp
next
  assume "\<not> (enabled r \<and> owns r (location w) url)"
  with assms show "goto pf rd r href_arg noscroll replaceState chain w =
      (w\<lparr> trace := trace w @ [SetLocationHref (href url)] \<rparr>, Never_settles)"
    by (auto simp add: goto_def)
qed

theorem goto_owned_or_hard_navigation_witness:
  "new_URL example_platform (str ''/about'')
       (Some (baseURI (example_window (mk_url ''http://localhost'' ''/page'' [] []))))
     = Some (mk_url ''http://localhost'' ''/about'' [] [])
   \<and> enabled (example_router [] Ignore)
   \<and> owns (example_router [] Ignore)
        (location (example_window (mk_url ''http://localhost'' ''/page'' [] [])))
        (mk_url ''http://localhost'' ''/about'' [] [])
   \<and> can_have_its_URL_rewritten
        (location (example_window (mk_url ''http://localhost'' ''/page'' [] [])))
        (mk_url ''http://localhost'' ''/about'' [] [])
   \<and> goto example_platform example_renderer (example_router [] Ignore) (str ''/about'')
        False False [] (example_window (mk_url ''http://localhost'' ''/page'' [] []))
     = navigate example_platform example_renderer (example_router [] Ignore)
         (mk_url ''http://localhost'' ''/about'' [] []) None []
         (Some (hash (mk_url ''http://localhost'' ''/about'' [] [])))
         ((example_window (mk_url ''http://localhost'' ''/page'' [] []))
            \<lparr> location := mk_url ''http://localhost'' ''/about'' [] [],
              trace := trace (example_window (mk_url ''http://localhost'' ''/page'' [] []))
                        @ [PushState (str ''/about'')] \<rparr>)
   \<and> new_URL example_platform (str ''http://user@localhost/about'')
       (Some (baseURI (example_window (mk_url ''http://localhost'' ''/page'' [] []))))
     = Some user_about_url
   \<and> owns (example_router [] Ignore)
        (location (example_window (mk_url ''http://localhost'' ''/page'' [] [])))
        user_about_url
   \<and> \<not> can_have_its_URL_rewritten
        (location (example_window (mk_url ''http://localhost'' ''/page'' [] [])))
        user_about_url
   \<and> goto example_platform example_renderer (example_router [] Ignore)
        (str ''http://user@localhost/about'') False True []
        (example_window (mk_url ''http://localhost'' ''/page'' [] []))
     = (example_window (mk_url ''http://localhost'' ''/page'' [] []), Rejected SecurityError)
   \<and> new_URL example_platform (str ''https://example.com/'')
       (Some (baseURI (example_window (mk_url ''http://localhost'' ''/page'' [] []))))
     = Some (mk_url ''https://example.com'' ''/'' [] [])
   \<and> \<not> owns (example_router [] Ignore)
        (location (example_window (mk_url ''http://localhost'' ''/page'' [] [])))
        (mk_url ''https://example.com'' ''/'' [] [])
   \<and> goto example_platform example_renderer (example_router [] Ignore)
        (str ''https://example.com/'') False False []
        (example_window (mk_url ''http://localhost'' ''/page'' [] []))
     = ((example_window (mk_url ''http://localhost'' ''/page'' [] []))
          \<lparr> trace := trace (example_window (mk_url ''http://localhost'' ''/page'' [] []))
                      @ [SetLocationHref (href (mk_url ''https://example.com'' ''/'' [] []))] \<rparr>,
        Never_settles)"
proof -
  let ?r = "example_router [] Ignore"
  let ?w = "example_window (mk_url ''http://localhost'' ''/page'' [] [])"
  let ?u = "mk_url ''http://localhost'' ''/about'' [] []"
  let ?v = "mk_url ''https://example.com'' ''/'' [] []"
  have l: "location ?w = mk_url ''http://localhost'' ''/page'' [] []"
    by (simp add: example_window_def)
  have n1: "new_URL example_platform (str ''/about'') (Some (baseURI ?w)) = Some ?u"
    by (simp add: example_platform_def absolute_URLs_def relative_URLs_def str_def)
  have n2: "new_URL example_platform (str ''https://example.com/'') (Some (baseURI ?w)) = Some ?v"
    by (simp add: example_platform_def absolute_URLs_def str_def)
  have n3: "new_URL example_platform (str ''http://user@localhost/about'') (Some (baseURI ?w))
             = Some user_about_url"
    by (rule example_new_URL_user)
  have e: "enabled ?r" by (simp add: example_router_def)
  have o1: "owns ?r (location ?w) ?u"
    by (simp add: l owns_def mk_url_fields example_router_def startsWith_def str_def)
  have o2: "\<not> owns ?r (location ?w) ?v"
    by (simp add: l owns_def mk_url_fields str_def)
  have o3: "owns ?r (location ?w) user_about_url" by (simp add: l user_about_url_owned)
  have r1: "can_have_its_URL_rewritten (location ?w) ?u" by (simp add: l localhost_rewritable)
  have r3: "\<not> can_have_its_URL_rewritten (location ?w) user_about_url"
    by (simp add: l user_about_url_refused)
  from goto_owned_or_hard_navigation [OF n1, of ?r example_renderer False False "[]"] e o1 r1
  have g1: "goto example_platform example_renderer ?r (str ''/about'') False False [] ?w
     = navigate example_platform example_renderer ?r ?u None [] (Some (hash ?u))
         (?w\<lparr> location := ?u, trace := trace ?w @ [PushState (str ''/about'')] \<rparr>)"
    by simp
  from goto_owned_or_hard_navigation [OF n2, of ?r example_renderer False False "[]"] o2
  have g2: "goto example_platform example_renderer ?r (str ''https://example.com/'') False False
              [] ?w
     = (?w\<lparr> trace := trace ?w @ [SetLocationHref (href ?v)] \<rparr>, Never_settles)"
    by simp
  from goto_owned_or_hard_navigation [OF n3, of ?r example_renderer False True "[]"] e o3 r3
  have g3: "goto example_platform example_renderer ?r (str ''http://user@localhost/about'')
              False True [] ?w = (?w, Rejected SecurityError)"
    by simp
  from n1 n2 n3 e o1 o2 o3 r1 r3 g1 g2 g3 show ?thesis by blast
qed

section \<open>Clicks\<close>

text \<open>
  C5, as stated, fails: a click on a hash-only link is a navigation unless the location
  already carries that hash. At \<^verbatim>\<open>http://localhost/page\<close>, a click on an anchor whose href
  is that URL plus \<^verbatim>\<open>#section\<close> pushes a history entry, runs \<^verbatim>\<open>_navigate\<close> (which has the
  Renderer update and scrolls to the element) and calls \<^verbatim>\<open>preventDefault\<close>.
\<close>

theorem click_hash_change_counterexample:
  "accepted (example_router [] Ignore)
      (example_event (example_anchor ''http://localhost/page#section'' []))
      (example_anchor ''http://localhost/page#section'' [])
   \<and> href_string (example_anchor ''http://localhost/page#section'' [])
       = href (mk_url ''http://localhost'' ''/page'' [] []) @ str ''#section''
   \<and> trace (click example_platform example_renderer (example_router [] Ignore)
              (example_event (example_anchor ''http://localhost/page#section'' []))
              (example_window (mk_url ''http://localhost'' ''/page'' [] [])))
       = [PushState (str ''http://localhost/page#section''),
          Notify (str ''/page'') [],
          Update \<lparr> id_nav = str ''/page?'', routes_nav = [], path = str ''/page'', query = [] \<rparr>
            [] False,
          PreventDefault,
          FocusBody,
          ScrollTo 0 120]"
proof -
  let ?r = "example_router [] Ignore"
  let ?a = "example_anchor ''http://localhost/page#section'' []"
  let ?w = "example_window (mk_url ''http://localhost'' ''/page'' [] [])"
  let ?u = "mk_url ''http://localhost'' ''/page'' [] ''#section''"
  let ?info = "\<lparr> id_nav = str ''/page?'', routes_nav = [], path = str ''/page'', query = [] \<rparr>
                 :: (jsstring, unit) navigation_info"
  let ?w1 = "?w\<lparr> location := ?u, trace := trace ?w @ [PushState (href ?u)] \<rparr>"
  have acc: "accepted ?r (example_event ?a) ?a"
    by (rule accepted_example) (simp_all add: example_router_def)
  have hs: "href_string ?a = str ''http://localhost/page#section''"
    by (simp add: example_anchor_props)
  have ne: "href_string ?a \<noteq> href (location ?w)"
    by (simp add: hs example_window_def mk_url_def str_def)
  have at: "\<not> hasAttribute ?a (str ''download'') \<and> \<not> rel_external ?a \<and> \<not> targeted ?a
            \<and> \<not> hasAttribute ?a (str ''sveltekit:noscroll'')"
    by (simp add: hasAttribute_def rel_external_def example_anchor_props)
       (simp add: example_anchor_def)
  have nu: "new_URL example_platform (href_string ?a) None = Some ?u"
    by (simp add: hs example_new_URL_page_section)
  have ow: "owns ?r (location ?w) ?u"
    by (simp add: owns_def example_window_def mk_url_def example_router_def startsWith_def str_def)
  have hu: "href ?u = str ''http://localhost/page#section''"
    by (simp add: mk_url_def str_def)
  have ps: "history_pushState example_platform (href ?u) ?w = Inr ?w1"
    by (rule history_accepts)
       (simp_all add: hu example_new_URL_page_section example_window_def localhost_rewritable)
  have pa: "parse example_platform ?r (location ?w1) ?u = Inr (Some ?info)"
    by (simp add: example_parse_page_section)
  have ns: "navigate_start example_platform ?r ?u [] ?w1 =
      (?w1\<lparr> trace := trace ?w1 @ [Notify (path ?info) (query ?info), Update ?info [] False] \<rparr>,
       Awaiting ?info)"
    by (rule navigate_start_unchanged [OF pa]) (simp add: example_router_def normalized_Ignore)
  have "click example_platform example_renderer ?r (example_event ?a) ?w =
      fst (navigate_resume example_renderer None [] (Some (hash ?u))
             (snd (navigate_start example_platform ?r ?u [] ?w1))
             ((fst (navigate_start example_platform ?r ?u [] ?w1))
                \<lparr> trace := trace (fst (navigate_start example_platform ?r ?u [] ?w1))
                            @ [PreventDefault] \<rparr>))"
    using click_other_href [OF acc ne, of example_platform example_renderer] at nu ow ps
    by simp
  then have "trace (click example_platform example_renderer ?r (example_event ?a) ?w) =
      [PushState (href ?u), Notify (str ''/page'') [], Update ?info [] False,
       PreventDefault, FocusBody, ScrollTo 0 120]"
    unfolding ns
    by (simp add: navigate_resume_def example_renderer_def example_window_def slice_from_def
          mk_url_def)
       (simp add: str_def)
  with acc hs hu show ?thesis by (simp add: mk_url_def str_def)
qed

text \<open>
  C5, amended: for every click the listener accepts (router enabled, primary button, no
  modifier key, default not prevented, on an anchor with an href): if the href equals
  \<^verbatim>\<open>location.href\<close>, \<^verbatim>\<open>preventDefault\<close> is called exactly when the location has no hash, and
  nothing else happens; this is the only case in which a hash link is left alone. Every
  other href, one that differs from the location by its hash only included, on an owned
  anchor without \<^verbatim>\<open>download\<close>, \<^verbatim>\<open>rel=external\<close> or target, gives \<^verbatim>\<open>history.pushState\<close> with the
  URL. If the browser lets the document's URL be rewritten to it, \<^verbatim>\<open>_navigate\<close> to the URL
  follows, with \<^verbatim>\<open>preventDefault\<close> called once \<^verbatim>\<open>_navigate\<close> is suspended or has thrown; if
  the browser refuses, the listener ends with the SecurityError, and neither \<^verbatim>\<open>_navigate\<close>
  nor \<^verbatim>\<open>preventDefault\<close> is called.
\<close>

theorem click_same_or_other_href:
  assumes "accepted r event a"
  shows "(href_string a = href (location w) \<longrightarrow>
            click pf rd r event w =
              (if hash (location w) = [] then w\<lparr> trace := trace w @ [PreventDefault] \<rparr>
               else w))
       \<and> (href_string a \<noteq> href (location w)
            \<and> \<not> hasAttribute a (str ''download'') \<and> \<not> rel_external a \<and> \<not> targeted a
            \<and> new_URL pf (href_string a) None = Some url \<and> owns r (location w) url
            \<and> new_URL pf (href url) (Some (baseURI w)) = Some url
            \<and> can_have_its_URL_rewritten (location w) url
          \<longrightarrow> click pf rd r event w =
                fst (navigate_resume rd
                       (if hasAttribute a (str ''sveltekit:noscroll'')
                        then Some (scroll_state w) else None)
                       [] (Some (hash url))
                       (snd (navigate_start pf r url []
                               (w\<lparr> location := url,
                                   trace := trace w @ [PushState (href url)] \<rparr>)))
                       ((fst (navigate_start pf r url []
                               (w\<lparr> location := url,
                                   trace := trace w @ [PushState (href url)] \<rparr>)))
                          \<lparr> trace := trace (fst (navigate_start pf r url []
                                                  (w\<lparr> location := url,
                                                      trace := trace w @ [PushState (href url)] \<rparr>)))
                                      @ [PreventDefault] \<rparr>))
              \<and> (\<exists>es es'. trace (click pf rd r event w) =
                     trace w @ [PushState (href url)] @ es @ [PreventDefault] @ es'))
       \<and> (href_string a \<noteq> href (location w)
            \<and> \<not> hasAttribute a (str ''download'') \<and> \<not> rel_external a \<and> \<not> targeted a
            \<and> new_URL pf (href_string a) None = Some url \<and> owns r (location w) url
            \<and> new_URL pf (href url) (Some (baseURI w)) = Some url
            \<and> \<not> can_have_its_URL_rewritten (location w) url
          \<longrightarrow> click pf rd r event w = w)"
proof (intro conjI impI)
  assume "href_string a = href (location w)"
  with assms show "click pf rd r event w =
      (if hash (location w) = [] then w\<lparr> trace := trace w @ [PreventDefault] \<rparr> else w)"
    by (rule click_same_href)
next
  let ?w1 = "w\<lparr> location := url, trace := trace w @ [PushState (href url)] \<rparr>"
  let ?sc = "if hasAttribute a (str ''sveltekit:noscroll'') then Some (scroll_state w) else None"
  let ?w2 = "fst (navigate_start pf r url [] ?w1)"
  let ?s = "snd (navigate_start pf r url [] ?w1)"
  let ?w3 = "?w2\<lparr> trace := trace ?w2 @ [PreventDefault] \<rparr>"
  assume h: "href_string a \<noteq> href (location w)
            \<and> \<not> hasAttribute a (str ''download'') \<and> \<not> rel_external a \<and> \<not> targeted a
            \<and> new_URL pf (href_string a) None = Some url \<and> owns r (location w) url
            \<and> new_URL pf (href url) (Some (baseURI w)) = Some url
            \<and> can_have_its_URL_rewritten (location w) url"
  then have ps: "history_pushState pf (href url) w = Inr ?w1"
    using history_accepts(1) [of pf "href url" w url] by simp
  have sc: "scroll_state ?w1 = scroll_state w" by (simp add: scroll_state_def)
  from h have ne: "href_string a \<noteq> href (location w)" by simp
  show c: "click pf rd r event w = fst (navigate_resume rd ?sc [] (Some (hash url)) ?s ?w3)"
    using click_other_href [OF assms ne, of pf rd] h ps sc by simp
  from navigate_start_trace [of pf r url "[]" ?w1]
  obtain es where 1: "trace ?w2 = trace ?w1 @ es" by blast
  from navigate_resume_trace [of rd ?sc "[]" "Some (hash url)" ?s ?w3]
  obtain es' where 2: "trace (fst (navigate_resume rd ?sc [] (Some (hash url)) ?s ?w3))
                        = trace ?w3 @ es'" by blast
  have "trace (click pf rd r event w) = trace w @ [PushState (href url)] @ es @ [PreventDefault] @ es'"
    unfolding c 2 using 1 by simp
  then show "\<exists>es es'. trace (click pf rd r event w) =
                     trace w @ [PushState (href url)] @ es @ [PreventDefault] @ es'"
    by blast
next
  assume h: "href_string a \<noteq> href (location w)
            \<and> \<not> hasAttribute a (str ''download'') \<and> \<not> rel_external a \<and> \<not> targeted a
            \<and> new_URL pf (href_string a) None = Some url \<and> owns r (location w) url
            \<and> new_URL pf (href url) (Some (baseURI w)) = Some url
            \<and> \<not> can_have_its_URL_rewritten (location w) url"
  then have ps: "history_pushState pf (href url) w = Inl SecurityError"
    using history_refuses(1) [of pf "href url" w url] by simp
  from h have ne: "href_string a \<noteq> href (location w)" by simp
  show "click pf rd r event w = w"
    using click_other_href [OF assms ne, of pf rd] h ps by simp
qed

theorem click_same_or_other_href_witness:
  "accepted (example_router [] Ignore)
      (example_event (example_anchor ''http://localhost/page'' []))
      (example_anchor ''http://localhost/page'' [])
   \<and> href_string (example_anchor ''http://localhost/page'' [])
       = href (location (example_window (mk_url ''http://localhost'' ''/page'' [] [])))
   \<and> click example_platform example_renderer (example_router [] Ignore)
        (example_event (example_anchor ''http://localhost/page'' []))
        (example_window (mk_url ''http://localhost'' ''/page'' [] []))
      = (example_window (mk_url ''http://localhost'' ''/page'' [] []))
          \<lparr> trace := [PreventDefault] \<rparr>
   \<and> accepted (example_router [] Ignore)
      (example_event (example_anchor ''http://localhost/about'' []))
      (example_anchor ''http://localhost/about'' [])
   \<and> href_string (example_anchor ''http://localhost/about'' [])
       \<noteq> href (location (example_window (mk_url ''http://localhost'' ''/page'' [] [])))
   \<and> owns (example_router [] Ignore)
        (location (example_window (mk_url ''http://localhost'' ''/page'' [] [])))
        (mk_url ''http://localhost'' ''/about'' [] [])
   \<and> (\<exists>es es'. trace (click example_platform example_renderer (example_router [] Ignore)
                         (example_event (example_anchor ''http://localhost/about'' []))
                         (example_window (mk_url ''http://localhost'' ''/page'' [] [])))
        = trace (example_window (mk_url ''http://localhost'' ''/page'' [] []))
          @ [PushState (href (mk_url ''http://localhost'' ''/about'' [] []))] @ es
          @ [PreventDefault] @ es')
   \<and> accepted (example_router [] Ignore)
      (example_event (example_anchor ''http://user@localhost/about'' []))
      (example_anchor ''http://user@localhost/about'' [])
   \<and> owns (example_router [] Ignore)
        (location (example_window (mk_url ''http://localhost'' ''/page'' [] [])))
        user_about_url
   \<and> \<not> can_have_its_URL_rewritten
        (location (example_window (mk_url ''http://localhost'' ''/page'' [] [])))
        user_about_url
   \<and> click example_platform example_renderer (example_router [] Ignore)
        (example_event (example_anchor ''http://user@localhost/about'' []))
        (example_window (mk_url ''http://localhost'' ''/page'' [] []))
      = example_window (mk_url ''http://localhost'' ''/page'' [] [])"
proof -
  let ?r = "example_router [] Ignore"
  let ?w = "example_window (mk_url ''http://localhost'' ''/page'' [] [])"
  let ?a = "example_anchor ''http://localhost/page'' []"
  let ?b = "example_anchor ''http://localhost/about'' []"
  let ?u = "mk_url ''http://localhost'' ''/about'' [] []"
  have e: "enabled ?r" by (simp add: example_router_def)
  have acc_a: "accepted ?r (example_event ?a) ?a" by (rule accepted_example) (simp_all add: e)
  have acc_b: "accepted ?r (example_event ?b) ?b" by (rule accepted_example) (simp_all add: e)
  have same: "href_string ?a = href (location ?w)"
    by (simp add: example_anchor_props example_window_def mk_url_def)
  have nohash: "hash (location ?w) = []"
    by (simp add: example_window_def mk_url_def str_def)
  have c1: "click example_platform example_renderer ?r (example_event ?a) ?w
             = ?w\<lparr> trace := [PreventDefault] \<rparr>"
    using click_same_or_other_href [OF acc_a, where w = ?w and pf = example_platform
            and rd = example_renderer] same nohash
    by (simp add: example_window_def)
  have other: "href_string ?b \<noteq> href (location ?w)"
    by (simp add: example_anchor_props example_window_def mk_url_def str_def)
  have at: "\<not> hasAttribute ?b (str ''download'') \<and> \<not> rel_external ?b \<and> \<not> targeted ?b"
    by (simp add: hasAttribute_def rel_external_def example_anchor_props)
       (simp add: example_anchor_def)
  have hu: "href ?u = str ''http://localhost/about''" by (simp add: mk_url_def str_def)
  have nu: "new_URL example_platform (href_string ?b) None = Some ?u
            \<and> new_URL example_platform (href ?u) (Some (baseURI ?w)) = Some ?u"
    by (simp add: hu example_anchor_props example_new_URL_about)
  have l: "location ?w = mk_url ''http://localhost'' ''/page'' [] []"
    by (simp add: example_window_def)
  have rw: "can_have_its_URL_rewritten (location ?w) ?u" by (simp add: l localhost_rewritable)
  have ow: "owns ?r (location ?w) ?u"
    by (simp add: owns_def example_window_def mk_url_def example_router_def startsWith_def str_def)
  from click_same_or_other_href [OF acc_b, where w = ?w and pf = example_platform
         and rd = example_renderer and url = ?u]
       other at nu ow rw
  have c2: "\<exists>es es'. trace (click example_platform example_renderer ?r (example_event ?b) ?w)
        = trace ?w @ [PushState (href ?u)] @ es @ [PreventDefault] @ es'"
    by blast
  let ?c = "example_anchor ''http://user@localhost/about'' []"
  have acc_c: "accepted ?r (example_event ?c) ?c" by (rule accepted_example) (simp_all add: e)
  have other_c: "href_string ?c \<noteq> href (location ?w)"
    by (simp add: example_anchor_props l mk_url_fields str_def)
  have at_c: "\<not> hasAttribute ?c (str ''download'') \<and> \<not> rel_external ?c \<and> \<not> targeted ?c"
    by (simp add: hasAttribute_def rel_external_def example_anchor_props)
       (simp add: example_anchor_def)
  have nu_c: "new_URL example_platform (href_string ?c) None = Some user_about_url
            \<and> new_URL example_platform (href user_about_url) (Some (baseURI ?w))
                = Some user_about_url"
    by (simp add: example_anchor_props user_about_url_fields example_new_URL_user)
  have ow_c: "owns ?r (location ?w) user_about_url" by (simp add: l user_about_url_owned)
  have rf_c: "\<not> can_have_its_URL_rewritten (location ?w) user_about_url"
    by (simp add: l user_about_url_refused)
  from click_same_or_other_href [OF acc_c, where w = ?w and pf = example_platform
         and rd = example_renderer and url = user_about_url]
       other_c at_c nu_c ow_c rf_c
  have c3: "click example_platform example_renderer ?r (example_event ?c) ?w = ?w"
    by blast
  from acc_a same c1 acc_b other ow c2 acc_c ow_c rf_c c3 show ?thesis by blast
qed

section \<open>The disabled router\<close>

text \<open>
  C8, as stated, fails: the prefetch trigger does not look at the flag. With the router
  disabled, a touch on an anchor marked \<^verbatim>\<open>sveltekit:prefetch\<close> calls the Renderer's \<^verbatim>\<open>load\<close>.
\<close>

theorem prefetch_while_disabled_counterexample:
  "\<not> enabled (disable (example_router [] Ignore))
   \<and> trace (trigger_prefetch example_platform example_renderer
              (disable (example_router [] Ignore))
              (example_event (example_anchor ''http://localhost/page'' [(''sveltekit:prefetch'', [])]))
              (example_window (mk_url ''http://localhost'' ''/about'' [] [])))
       = [Load \<lparr> id_nav = str ''/page?'', routes_nav = [], path = str ''/page'', query = [] \<rparr>]"
proof -
  let ?r = "example_router [] Ignore"
  let ?a = "example_anchor ''http://localhost/page'' [(''sveltekit:prefetch'', [])]"
  let ?w = "example_window (mk_url ''http://localhost'' ''/about'' [] [])"
  let ?u = "mk_url ''http://localhost'' ''/page'' [] []"
  have fa: "find_anchor (target (example_event ?a)) = Some ?a"
    by (simp add: example_event_def example_anchor_def toUpperCase_def str_def)
  have tr: "truthy (href_of ?a) \<and> hasAttribute ?a (str ''sveltekit:prefetch'')"
    by (simp add: example_anchor_def truthy_def hasAttribute_def str_def)
  have hr: "href_of ?a = Str (str ''http://localhost/page'')"
    by (simp add: example_anchor_def)
  have nu: "new_URL example_platform (str ''http://localhost/page'') None = Some ?u"
    by (simp add: example_platform_def absolute_URLs_def str_def)
  have pa: "parse example_platform (disable ?r) (location ?w) ?u
      = Inr (Some \<lparr> id_nav = str ''/page?'', routes_nav = [], path = str ''/page'', query = [] \<rparr>)"
    by (simp add: disable_def parse_enabled_irrelevant example_window_def example_parse_page)
  have "trace (trigger_prefetch example_platform example_renderer (disable ?r)
                 (example_event ?a) ?w)
        = [Load \<lparr> id_nav = str ''/page?'', routes_nav = [], path = str ''/page'', query = [] \<rparr>]"
    using fa tr hr nu pa
    by (simp add: trigger_prefetch_def prefetch_def) (simp add: example_window_def)
  then show ?thesis by (simp add: disable_def)
qed

text \<open>
  C8, amended: while the router is disabled the click and the popstate listeners do
  nothing. The prefetch triggers (touch, and mouse movement once its timer fires) are
  not guarded: they do the same whether the router is enabled or not. \<^verbatim>\<open>disable\<close> changes
  nothing but the flag, and after \<^verbatim>\<open>enable\<close> the click and popstate listeners behave as
  they do on an enabled router, without being installed again.
\<close>

theorem disabled_router_guards:
  "(\<not> enabled r \<longrightarrow> click pf rd r event w = w \<and> popstate pf rd r pop_event w = w)
   \<and> trigger_prefetch pf rd (disable r) event w = trigger_prefetch pf rd r event w
   \<and> mousemove_timeout_fires pf rd (disable r) w = mousemove_timeout_fires pf rd r w
   \<and> \<not> enabled (disable r)
   \<and> base (disable r) = base r \<and> routes (disable r) = routes r
   \<and> trailing_slash (disable r) = trailing_slash r
   \<and> enabled (enable (disable r))
   \<and> click pf rd (enable (disable r)) event w = click pf rd (enable r) event w
   \<and> popstate pf rd (enable (disable r)) pop_event w = popstate pf rd (enable r) pop_event w"
proof -
  have "mousemove_timeout_fires pf rd (disable r) w = mousemove_timeout_fires pf rd r w"
    by (simp add: mousemove_timeout_fires_def disable_def trigger_prefetch_enabled_irrelevant
          split: option.splits)
  then show ?thesis
    by (simp add: click_disabled popstate_disabled trigger_prefetch_enabled_irrelevant
          disable_def enable_def)
qed

theorem disabled_router_guards_witness:
  "\<not> enabled (disable (example_router [] Ignore))
   \<and> click example_platform example_renderer (disable (example_router [] Ignore))
        (example_event (example_anchor ''http://localhost/about'' []))
        (example_window (mk_url ''http://localhost'' ''/page'' [] []))
      = example_window (mk_url ''http://localhost'' ''/page'' [] [])
   \<and> popstate example_platform example_renderer (disable (example_router [] Ignore))
        \<lparr> state = Some None \<rparr>
        (example_window (mk_url ''http://localhost'' ''/page'' [] []))
      = example_window (mk_url ''http://localhost'' ''/page'' [] [])"
proof -
  have d: "\<not> enabled (disable (example_router [] Ignore))"
    by (simp add: disable_def)
  from d disabled_router_guards [of "disable (example_router [] Ignore)" example_platform
           example_renderer "example_event (example_anchor ''http://localhost/about'' [])"
           "example_window (mk_url ''http://localhost'' ''/page'' [] [])" "\<lparr> state = Some None \<rparr>"]
  show ?thesis by blast
qed

end
